theory Spec2Isabelle
  imports Complex_Main
begin

section \<open>The invoice draft engine of frontend/src/App.js\<close>

text \<open>
  The invoice form of \<^verbatim>\<open>App.js\<close> keeps one draft in React state and changes it through
  a handful of handlers. Each handler is embedded as a function from the current draft to
  the next one; a handler that throws is a function into a sum type.
\<close>

subsection \<open>JavaScript numbers\<close>

text \<open>
  A JavaScript number is an IEEE 754 binary64 value: NaN, the two infinities, the two zeros,
  and the finite non-zero doubles. A finite double is kept as the rational it denotes;
  \<open>Fin 0\<close> is \<open>+0\<close> and \<open>NegZero\<close> is \<open>-0\<close>. Every arithmetic result is rounded to
  the nearest double, ties to even, as the source's \<^verbatim>\<open>+\<close>, \<^verbatim>\<open>-\<close>, \<^verbatim>\<open>*\<close> and \<^verbatim>\<open>/\<close>
  round it.
\<close>

datatype jsnum = NaN | PInf | NInf | NegZero | Fin rat

text \<open>The binary exponent of a positive rational: \<open>2 powi expo x \<le> x < 2 powi (expo x + 1)\<close>.\<close>

function expo :: "rat \<Rightarrow> int" where
  "expo x =
     (if x \<le> 0 then 0
      else if 2 \<le> x then expo (x / 2) + 1
      else if x < 1 then expo (2 * x) - 1
      else 0)"
  by pat_completeness auto
termination
proof (relation "measure (\<lambda>x. if 1 \<le> x then nat \<lfloor>x\<rfloor> else nat \<lceil>1 / x\<rceil>)")
  show "wf (measure (\<lambda>x::rat. if 1 \<le> x then nat \<lfloor>x\<rfloor> else nat \<lceil>1 / x\<rceil>))" by simp
next
  fix x :: rat
  assume "\<not> x \<le> 0" and x2: "2 \<le> x"
  have "\<lfloor>x / 2\<rfloor> \<le> \<lfloor>x - 1\<rfloor>" using x2 by (intro floor_mono) simp
  then have "\<lfloor>x / 2\<rfloor> < \<lfloor>x\<rfloor>" by simp
  moreover have "0 < \<lfloor>x\<rfloor>" using x2 by simp
  ultimately show "(x / 2, x) \<in> measure (\<lambda>x. if 1 \<le> x then nat \<lfloor>x\<rfloor> else nat \<lceil>1 / x\<rceil>)"
    using x2 by simp
next
  fix x :: rat
  assume pos: "\<not> x \<le> 0" and "\<not> 2 \<le> x" and x1: "x < 1"
  then have x0: "0 < x" by simp
  have inv: "1 < 1 / x" using x0 x1 by simp
  then have c2: "2 \<le> \<lceil>1 / x\<rceil>" by linarith
  show "(2 * x, x) \<in> measure (\<lambda>x. if 1 \<le> x then nat \<lfloor>x\<rfloor> else nat \<lceil>1 / x\<rceil>)"
  proof (cases "1 \<le> 2 * x")
    case True
    have "2 * x < 2" using x1 by simp
    then have "\<lfloor>2 * x\<rfloor> < 2" by linarith
    then have "\<lfloor>2 * x\<rfloor> < \<lceil>1 / x\<rceil>" using c2 by linarith
    moreover have "0 < \<lceil>1 / x\<rceil>" using c2 by linarith
    ultimately show ?thesis using True x1 by simp
  next
    case False
    then have "2 \<le> 1 / x" using x0 by (simp add: field_simps)
    then have "1 / (2 * x) \<le> 1 / x - 1" using x0 by (simp add: field_simps)
    then have "\<lceil>1 / (2 * x)\<rceil> \<le> \<lceil>1 / x - 1\<rceil>" by (rule ceiling_mono)
    then have "\<lceil>1 / (2 * x)\<rceil> < \<lceil>1 / x\<rceil>" by simp
    moreover have "0 < \<lceil>1 / x\<rceil>" using c2 by linarith
    moreover have "\<not> 1 \<le> x" using x1 by simp
    ultimately show ?thesis using False by simp
  qed
qed

declare expo.simps [simp del]

text \<open>Rounding to the nearest integer, a tie to the even one.\<close>

definition round_even :: "rat \<Rightarrow> int" where
  "round_even y =
     (let f = \<lfloor>y\<rfloor>; d = y - of_int f
      in if d < 1 / 2 then f else if 1 / 2 < d then f + 1 else if even f then f else f + 1)"

text \<open>
  Rounding to binary64. The exponent is at least -1022 (below that the doubles are
  subnormal and share the spacing \<open>2 powi (- 1074)\<close>), the significand has 53 bits, and a
  magnitude that rounds to \<open>2 ^ 1024\<close> or more overflows to an infinity. A non-zero value
  that rounds to zero keeps its sign.
\<close>

definition round_double :: "rat \<Rightarrow> jsnum" where
  "round_double x =
     (if x = 0 then Fin 0
      else
        (let a = \<bar>x\<bar>;
             e = max (expo a) (- 1022);
             q = 2 powi (e - 52);
             m = round_even (a / q);
             r = of_int m * q
         in if 2 ^ 1024 \<le> r then (if x < 0 then NInf else PInf)
            else if m = 0 then (if x < 0 then NegZero else Fin 0)
            else Fin (if x < 0 then - r else r)))"

fun js_neg :: "jsnum \<Rightarrow> jsnum" where
  "js_neg NaN = NaN"
| "js_neg PInf = NInf"
| "js_neg NInf = PInf"
| "js_neg NegZero = Fin 0"
| "js_neg (Fin a) = (if a = 0 then NegZero else Fin (- a))"

text \<open>\<^verbatim>\<open>x + y\<close> on numbers. Two zeros add to \<open>-0\<close> only when both are \<open>-0\<close>.\<close>

fun js_add :: "jsnum \<Rightarrow> jsnum \<Rightarrow> jsnum" where
  "js_add NaN y = NaN"
| "js_add x NaN = NaN"
| "js_add PInf NInf = NaN"
| "js_add NInf PInf = NaN"
| "js_add PInf y = PInf"
| "js_add NInf y = NInf"
| "js_add x PInf = PInf"
| "js_add x NInf = NInf"
| "js_add NegZero y = y"
| "js_add x NegZero = x"
| "js_add (Fin a) (Fin b) = round_double (a + b)"

text \<open>\<^verbatim>\<open>x - y\<close> on numbers.\<close>

definition js_sub :: "jsnum \<Rightarrow> jsnum \<Rightarrow> jsnum" where
  "js_sub x y = js_add x (js_neg y)"

text \<open>The sign bit.\<close>

fun js_negative :: "jsnum \<Rightarrow> bool" where
  "js_negative NaN = False"
| "js_negative PInf = False"
| "js_negative NInf = True"
| "js_negative NegZero = True"
| "js_negative (Fin a) = (a < 0)"

definition js_is_zero :: "jsnum \<Rightarrow> bool" where
  "js_is_zero x = (x = Fin 0 \<or> x = NegZero)"

definition js_is_inf :: "jsnum \<Rightarrow> bool" where
  "js_is_inf x = (x = PInf \<or> x = NInf)"

text \<open>
  \<^verbatim>\<open>x * y\<close> on numbers: an infinity times a zero is NaN, and the sign of every other
  result is the product of the signs.
\<close>

definition js_mul :: "jsnum \<Rightarrow> jsnum \<Rightarrow> jsnum" where
  "js_mul x y =
     (if x = NaN \<or> y = NaN then NaN
      else if (js_is_inf x \<and> js_is_zero y) \<or> (js_is_zero x \<and> js_is_inf y) then NaN
      else if js_is_inf x \<or> js_is_inf y
        then (if js_negative x = js_negative y then PInf else NInf)
      else if js_is_zero x \<or> js_is_zero y
        then (if js_negative x = js_negative y then Fin 0 else NegZero)
      else (case (x, y) of (Fin a, Fin b) \<Rightarrow> round_double (a * b) | other \<Rightarrow> NaN))"

text \<open>
  \<^verbatim>\<open>x / y\<close> on numbers: an infinity by an infinity and a zero by a zero are NaN, and the
  sign of every other result is the product of the signs.
\<close>

definition js_div :: "jsnum \<Rightarrow> jsnum \<Rightarrow> jsnum" where
  "js_div x y =
     (if x = NaN \<or> y = NaN then NaN
      else if (js_is_inf x \<and> js_is_inf y) \<or> (js_is_zero x \<and> js_is_zero y) then NaN
      else if js_is_inf x \<or> js_is_zero y
        then (if js_negative x = js_negative y then PInf else NInf)
      else if js_is_zero x \<or> js_is_inf y
        then (if js_negative x = js_negative y then Fin 0 else NegZero)
      else (case (x, y) of (Fin a, Fin b) \<Rightarrow> round_double (a / b) | other \<Rightarrow> NaN))"

text \<open>
  \<^verbatim>\<open>x || 0\<close> for a number \<open>x\<close>: the falsy numbers are NaN and the two zeros, and the
  result is then the literal \<open>0\<close>.
\<close>

definition js_or_zero :: "jsnum \<Rightarrow> jsnum" where
  "js_or_zero x = (if x = NaN \<or> js_is_zero x then Fin 0 else x)"

text \<open>\<^verbatim>\<open>x >= 0\<close> on numbers (false for NaN, true for both zeros).\<close>

fun js_ge_zero :: "jsnum \<Rightarrow> bool" where
  "js_ge_zero NaN = False"
| "js_ge_zero PInf = True"
| "js_ge_zero NInf = False"
| "js_ge_zero NegZero = True"
| "js_ge_zero (Fin a) = (0 \<le> a)"

subsection \<open>Strings, \<^verbatim>\<open>trim\<close> and \<^verbatim>\<open>parseFloat\<close>\<close>

text \<open>
  A \<^typ>\<open>char\<close> stands for one UTF-16 code unit below 256. The white space and line
  terminators of ECMAScript in that range are TAB, LF, VT, FF, CR, SP and NBSP.
\<close>

definition js_space :: "char \<Rightarrow> bool" where
  "js_space c = ((of_char c :: nat) \<in> {9, 10, 11, 12, 13, 32, 160})"

text \<open>\<^verbatim>\<open>s.trim()\<close>\<close>

definition trim :: "string \<Rightarrow> string" where
  "trim s = rev (dropWhile js_space (rev (dropWhile js_space s)))"

definition is_digit :: "char \<Rightarrow> bool" where
  "is_digit c = (48 \<le> (of_char c :: nat) \<and> (of_char c :: nat) \<le> 57)"

definition digits_value :: "string \<Rightarrow> int" where
  "digits_value ds = foldl (\<lambda>acc c. 10 * acc + (of_char c - 48)) 0 ds"

text \<open>
  The exponent part of a decimal literal: \<open>e\<close> or \<open>E\<close>, an optional sign and at least one
  digit. Anything else is no exponent part, and the literal ends before it.
\<close>

definition exponent_part :: "string \<Rightarrow> int" where
  "exponent_part r =
     (case r of
        [] \<Rightarrow> 0
      | c # r1 \<Rightarrow>
          if c = CHR ''e'' \<or> c = CHR ''E'' then
            (let neg = (r1 \<noteq> [] \<and> hd r1 = CHR ''-'');
                 r2 = (if r1 \<noteq> [] \<and> (hd r1 = CHR ''+'' \<or> hd r1 = CHR ''-'') then tl r1 else r1);
                 ds = takeWhile is_digit r2
             in if ds = [] then 0
                else if neg then - digits_value ds else digits_value ds)
          else 0)"

text \<open>
  \<^verbatim>\<open>parseFloat(s)\<close>: leading white space is dropped, then the longest prefix that is a
  \<open>StrDecimalLiteral\<close> is read (a sign, then \<open>Infinity\<close> or digits with an optional
  fraction and exponent); with no such prefix the result is NaN. The decimal value is
  rounded to the nearest double, as the engines round it; a literal that is zero takes the
  sign written.
\<close>

definition parseFloat :: "string \<Rightarrow> jsnum" where
  "parseFloat s =
     (let t = dropWhile js_space s;
          neg = (t \<noteq> [] \<and> hd t = CHR ''-'');
          u = (if t \<noteq> [] \<and> (hd t = CHR ''+'' \<or> hd t = CHR ''-'') then tl t else t)
      in if take 8 u = ''Infinity'' then (if neg then NInf else PInf)
         else
           (let ip = takeWhile is_digit u;
                r1 = dropWhile is_digit u;
                dot = (r1 \<noteq> [] \<and> hd r1 = CHR ''.'');
                fp = (if dot then takeWhile is_digit (tl r1) else []);
                r2 = (if dot then dropWhile is_digit (tl r1) else r1)
            in if ip = [] \<and> fp = [] then NaN
               else
                 (let e = exponent_part r2;
                      m = of_int (digits_value (ip @ fp)) / 10 ^ length fp;
                      v = (if 0 \<le> e then m * 10 ^ nat e else m / 10 ^ nat (- e))
                  in if v = 0 then (if neg then NegZero else Fin 0)
                     else round_double (if neg then - v else v))))"

subsection \<open>The draft\<close>

record line_item =
  description :: string
  quantity :: jsnum
  rate :: jsnum
  amount :: jsnum

text \<open>A customer object; a property that was never written is \<open>undefined\<close> (\<open>None\<close>).\<close>

record customer_rec =
  name :: "string option"
  mobile :: "string option"
  address :: "string option"

datatype payment = Cash | Credit

text \<open>
  The \<^verbatim>\<open>invoice\<close> state of lines 25 to 37. The fields \<^verbatim>\<open>total\<close> and
  \<^verbatim>\<open>notes\<close> are \<open>total_amount\<close> and \<open>invoice_notes\<close> here; \<open>customer = None\<close> and \<open>due_date = None\<close> are the source's \<^verbatim>\<open>null\<close>.
\<close>

record invoice =
  payment_type :: payment
  customer :: "customer_rec option"
  items :: "line_item list"
  subtotal :: jsnum
  discount :: jsnum
  gst_rate :: jsnum
  gst_amount :: jsnum
  total_amount :: jsnum
  invoice_notes :: string
  terms :: string
  due_date :: "string option"

text \<open>The object literal \<^verbatim>\<open>{ description: '', quantity: 1, rate: 0, amount: 0 }\<close>.\<close>

definition blank_item :: line_item where
  "blank_item = \<lparr>description = [], quantity = Fin 1, rate = Fin 0, amount = Fin 0\<rparr>"

text \<open>The initial state (lines 25 to 37), which is also the reset template (lines 201 to 213).\<close>

definition empty_invoice :: invoice where
  "empty_invoice =
     \<lparr>payment_type = Cash, customer = None, items = [blank_item],
      subtotal = Fin 0, discount = Fin 0, gst_rate = Fin 0, gst_amount = Fin 0,
      total_amount = Fin 0, invoice_notes = [], terms = [], due_date = None\<rparr>"

subsection \<open>Totals\<close>

definition calculateItemAmount :: "jsnum \<Rightarrow> jsnum \<Rightarrow> jsnum" where
  "calculateItemAmount q r = js_mul q r"

text \<open>
  \<^verbatim>\<open>calculateTotals\<close> (lines 86 to 94); the result object is the triple
  (subtotal, gstAmount, total).
\<close>

definition calculateTotals :: "line_item list \<Rightarrow> jsnum \<Rightarrow> jsnum \<Rightarrow> jsnum \<times> jsnum \<times> jsnum" where
  "calculateTotals its disc gstRate =
     (let subtotal' = foldl (\<lambda>sum item. js_add sum (amount item)) (Fin 0) its;
          discountAmount = js_or_zero disc;
          afterDiscount = js_sub subtotal' discountAmount;
          gstAmount = js_div (js_mul afterDiscount (js_or_zero gstRate)) (Fin 100);
          total' = js_add afterDiscount gstAmount
      in (subtotal', gstAmount, total'))"

subsection \<open>Editing handlers\<close>

text \<open>
  The second and third argument of \<^verbatim>\<open>handleItemChange(index, field, value)\<close> together:
  the form passes text for \<^verbatim>\<open>'description'\<close> and a number for \<^verbatim>\<open>'quantity'\<close> and
  \<^verbatim>\<open>'rate'\<close>.
\<close>

datatype item_edit = SetDescription string | SetQuantity jsnum | SetRate jsnum

datatype js_error = TypeError

text \<open>
  \<^verbatim>\<open>handleItemChange\<close> (lines 96 to 113). \<^verbatim>\<open>newItems[index]\<close> is \<^verbatim>\<open>undefined\<close> when
  \<open>index\<close> is not a position of the array, and the assignment
  \<^verbatim>\<open>newItems[index][field] = value\<close> then throws a TypeError before \<^verbatim>\<open>setInvoice\<close> is
  reached.
\<close>

definition handleItemChange :: "int \<Rightarrow> item_edit \<Rightarrow> invoice \<Rightarrow> js_error + invoice" where
  "handleItemChange index edit draft =
     (if index < 0 \<or> int (length (items draft)) \<le> index then Inl TypeError
      else
        (let i = nat index;
             it = items draft ! i;
             it1 = (case edit of
                      SetDescription v \<Rightarrow> it\<lparr>description := v\<rparr>
                    | SetQuantity v \<Rightarrow> it\<lparr>quantity := v\<rparr>
                    | SetRate v \<Rightarrow> it\<lparr>rate := v\<rparr>);
             it2 = (case edit of
                      SetDescription v \<Rightarrow> it1
                    | SetQuantity v \<Rightarrow> it1\<lparr>amount := calculateItemAmount (quantity it1) (rate it1)\<rparr>
                    | SetRate v \<Rightarrow> it1\<lparr>amount := calculateItemAmount (quantity it1) (rate it1)\<rparr>);
             newItems = (items draft)[i := it2];
             (st, gst, tot) = calculateTotals newItems (discount draft) (gst_rate draft)
         in Inr (draft\<lparr>items := newItems, subtotal := st, gst_amount := gst, total_amount := tot\<rparr>)))"

text \<open>\<^verbatim>\<open>handleDiscountChange\<close> (lines 115 to 126).\<close>

definition handleDiscountChange :: "string \<Rightarrow> invoice \<Rightarrow> invoice" where
  "handleDiscountChange v draft =
     (let disc = js_or_zero (parseFloat v);
          (st, gst, tot) = calculateTotals (items draft) disc (gst_rate draft)
      in draft\<lparr>discount := disc, subtotal := st, gst_amount := gst, total_amount := tot\<rparr>)"

text \<open>\<^verbatim>\<open>handleGSTChange\<close> (lines 128 to 138); \<^verbatim>\<open>subtotal\<close> is not written.\<close>

definition handleGSTChange :: "string \<Rightarrow> invoice \<Rightarrow> invoice" where
  "handleGSTChange v draft =
     (let gstRate = js_or_zero (parseFloat v);
          (st, gst, tot) = calculateTotals (items draft) (discount draft) gstRate
      in draft\<lparr>gst_rate := gstRate, gst_amount := gst, total_amount := tot\<rparr>)"

text \<open>\<^verbatim>\<open>addItem\<close> (lines 140 to 145); the totals are not written.\<close>

definition addItem :: "invoice \<Rightarrow> invoice" where
  "addItem draft = draft\<lparr>items := items draft @ [blank_item]\<rparr>"

text \<open>
  \<^verbatim>\<open>removeItem\<close> (lines 147 to 160). The filter keeps the elements whose position is
  not strictly equal to \<open>index\<close>.
\<close>

definition removeItem :: "int \<Rightarrow> invoice \<Rightarrow> invoice" where
  "removeItem index draft =
     (if 1 < length (items draft) then
        (let newItems = map snd (filter (\<lambda>(i, item). int i \<noteq> index) (enumerate 0 (items draft)));
             (st, gst, tot) = calculateTotals newItems (discount draft) (gst_rate draft)
         in draft\<lparr>items := newItems, subtotal := st, gst_amount := gst, total_amount := tot\<rparr>)
      else draft)"

text \<open>\<^verbatim>\<open>handlePaymentTypeChange\<close> (lines 162 to 168).\<close>

definition handlePaymentTypeChange :: "payment \<Rightarrow> invoice \<Rightarrow> invoice" where
  "handlePaymentTypeChange ty draft =
     draft\<lparr>payment_type := ty, customer := (if ty = Cash then None else customer draft)\<rparr>"

datatype customer_field = Name | Mobile | Address

text \<open>
  \<^verbatim>\<open>handleCustomerChange\<close> (lines 170 to 178). Spreading \<^verbatim>\<open>null\<close> gives the object
  with no property.
\<close>

definition handleCustomerChange :: "customer_field \<Rightarrow> string \<Rightarrow> invoice \<Rightarrow> invoice" where
  "handleCustomerChange field v draft =
     (let c = (case customer draft of
                 None \<Rightarrow> \<lparr>name = None, mobile = None, address = None\<rparr>
               | Some c0 \<Rightarrow> c0)
      in draft\<lparr>customer := Some (case field of
                                 Name \<Rightarrow> c\<lparr>name := Some v\<rparr>
                               | Mobile \<Rightarrow> c\<lparr>mobile := Some v\<rparr>
                               | Address \<Rightarrow> c\<lparr>address := Some v\<rparr>)\<rparr>)"

text \<open>The inline setters of the form (lines 423, 556 and 566).\<close>

definition setDueDate :: "string \<Rightarrow> invoice \<Rightarrow> invoice" where
  "setDueDate v draft = draft\<lparr>due_date := Some v\<rparr>"

definition setNotes :: "string \<Rightarrow> invoice \<Rightarrow> invoice" where
  "setNotes v draft = draft\<lparr>invoice_notes := v\<rparr>"

definition setTerms :: "string \<Rightarrow> invoice \<Rightarrow> invoice" where
  "setTerms v draft = draft\<lparr>terms := v\<rparr>"

subsection \<open>Submission\<close>

datatype validation_error = MissingLineItemDescription | MissingCustomerName

text \<open>\<^verbatim>\<open>invoice.customer?.name?.trim()\<close> is truthy.\<close>

definition customer_name_given :: "customer_rec option \<Rightarrow> bool" where
  "customer_name_given c =
     (case c of
        None \<Rightarrow> False
      | Some c0 \<Rightarrow> (case name c0 of None \<Rightarrow> False | Some n \<Rightarrow> trim n \<noteq> []))"

text \<open>
  The two checks at the head of \<^verbatim>\<open>createInvoice\<close> (lines 184 to 193), in their order;
  \<open>None\<close> when both pass.
\<close>

definition validateForSubmission :: "invoice \<Rightarrow> validation_error option" where
  "validateForSubmission draft =
     (if \<not> list_ex (\<lambda>item. trim (description item) \<noteq> []) (items draft)
      then Some MissingLineItemDescription
      else if payment_type draft = Credit \<and> \<not> customer_name_given (customer draft)
      then Some MissingCustomerName
      else None)"

text \<open>
  What \<^verbatim>\<open>await axios.post(...)\<close> does: it throws, or it returns a response whose
  \<^verbatim>\<open>data\<close> is truthy or falsy.
\<close>

datatype post_result = PostFailed | PostResponse bool

text \<open>What \<^verbatim>\<open>createInvoice\<close> does besides writing the draft, in order.\<close>

datatype effect =
  SetLoading bool | Alert string | Post invoice | ConsoleError
  | FetchInvoices | FetchCustomers | FetchSummary

text \<open>
  \<^verbatim>\<open>createInvoice\<close> (lines 180 to 226), with the persistence collaborator as the function
  \<open>post\<close>. The result is the draft afterwards and the effects.
\<close>

definition createInvoice :: "(invoice \<Rightarrow> post_result) \<Rightarrow> invoice \<Rightarrow> invoice \<times> effect list" where
  "createInvoice post draft =
     (case validateForSubmission draft of
        Some MissingLineItemDescription \<Rightarrow>
          (draft, [SetLoading True, Alert ''Please add at least one item with description'',
                 SetLoading False])
      | Some MissingCustomerName \<Rightarrow>
          (draft, [SetLoading True, Alert ''Please enter customer name for credit bills'',
                 SetLoading False])
      | None \<Rightarrow>
          (case post draft of
             PostFailed \<Rightarrow>
               (draft, [SetLoading True, Post draft, ConsoleError,
                      Alert ''Failed to create invoice. Please try again.'', SetLoading False])
           | PostResponse data \<Rightarrow>
               if data then
                 (empty_invoice,
                  [SetLoading True, Post draft, Alert ''Invoice created successfully!'',
                   FetchInvoices, FetchCustomers, FetchSummary, SetLoading False])
               else (draft, [SetLoading True, Post draft, SetLoading False])))"

subsection \<open>Sequences of calls\<close>

datatype call =
  SetItemField int item_edit | AddItem | RemoveItem int
  | SetDiscount string | SetGstRate string
  | SetPaymentType payment | SetCustomerField customer_field string
  | SetDueDate string | SetNotes string | SetTerms string
  | Submit post_result

text \<open>One call on the draft. A handler that throws has not written the draft.\<close>

fun apply_call :: "call \<Rightarrow> invoice \<Rightarrow> invoice" where
  "apply_call (SetItemField i e) draft =
     (case handleItemChange i e draft of Inl err \<Rightarrow> draft | Inr draft' \<Rightarrow> draft')"
| "apply_call AddItem draft = addItem draft"
| "apply_call (RemoveItem i) draft = removeItem i draft"
| "apply_call (SetDiscount v) draft = handleDiscountChange v draft"
| "apply_call (SetGstRate v) draft = handleGSTChange v draft"
| "apply_call (SetPaymentType ty) draft = handlePaymentTypeChange ty draft"
| "apply_call (SetCustomerField f v) draft = handleCustomerChange f v draft"
| "apply_call (SetDueDate v) draft = setDueDate v draft"
| "apply_call (SetNotes v) draft = setNotes v draft"
| "apply_call (SetTerms v) draft = setTerms v draft"
| "apply_call (Submit r) draft = fst (createInvoice (\<lambda>x. r) draft)"

fun run :: "call list \<Rightarrow> invoice \<Rightarrow> invoice" where
  "run [] draft = draft"
| "run (c # cs) draft = run cs (apply_call c draft)"

subsection \<open>The invariants of the data model\<close>

text \<open>
  The sum of the amounts of the rows: the amounts are added to 0 one after the other, from
  the first row on, each addition rounding as \<^verbatim>\<open>+\<close> does.
\<close>

definition amounts_sum :: "line_item list \<Rightarrow> jsnum" where
  "amounts_sum its = foldl (\<lambda>acc item. js_add acc (amount item)) (Fin 0) its"

text \<open>Invariants 1 to 3: the stored totals are those of the stored rows, discount and rate.\<close>

definition totals_invariant :: "invoice \<Rightarrow> bool" where
  "totals_invariant draft =
     (subtotal draft = amounts_sum (items draft)
      \<and> gst_amount draft =
          js_div (js_mul (js_sub (subtotal draft) (discount draft)) (gst_rate draft)) (Fin 100)
      \<and> total_amount draft = js_add (js_sub (subtotal draft) (discount draft)) (gst_amount draft))"

text \<open>
  The stored discount and rate are values of \<^verbatim>\<open>parseFloat(value) || 0\<close>: neither NaN
  nor \<open>-0\<close>.
\<close>

definition rates_are_numbers :: "invoice \<Rightarrow> bool" where
  "rates_are_numbers draft =
     (js_or_zero (discount draft) = discount draft \<and> js_or_zero (gst_rate draft) = gst_rate draft)"

text \<open>A number whose finite value is a double: rounding leaves it as it is.\<close>

fun js_canonical :: "jsnum \<Rightarrow> bool" where
  "js_canonical (Fin a) = (round_double a = Fin a)"
| "js_canonical x = True"

text \<open>What every draft of the engine satisfies, as shown below.\<close>

definition well_formed :: "invoice \<Rightarrow> bool" where
  "well_formed draft =
     (totals_invariant draft \<and> rates_are_numbers draft
      \<and> list_all (\<lambda>item. js_canonical (amount item)) (items draft))"

text \<open>Invariant 5: a customer is present only when the payment type is Credit.\<close>

definition customer_only_credit :: "invoice \<Rightarrow> bool" where
  "customer_only_credit draft = (customer draft = None \<or> payment_type draft = Credit)"

text \<open>
  The form shows the customer fields only when the payment type is Credit: a sequence of
  calls is one of the form when each \<open>SetCustomerField\<close> in it meets a Credit draft.
\<close>

fun form_calls :: "call list \<Rightarrow> invoice \<Rightarrow> bool" where
  "form_calls [] draft = True"
| "form_calls (SetCustomerField f v # cs) draft =
     (payment_type draft = Credit \<and> form_calls cs (apply_call (SetCustomerField f v) draft))"
| "form_calls (c # cs) draft = form_calls cs (apply_call c draft)"

section \<open>Properties\<close>

subsection \<open>Rounding to a double\<close>

text \<open>
  The exponent function meets its specification, so the rounding of a value whose exponent
  is known needs no search. Rounding is idempotent: a rounded value is a double, and
  rounding a double gives it back. Every double is a multiple of \<open>2 powi (- 1074)\<close>, so a
  non-zero sum of two doubles does not round to a zero.
\<close>

lemma two_powi_pos: "0 < (2::rat) powi k"
  by simp

lemma two_powi_Suc: "(2::rat) powi (k + 1) = 2 * 2 powi k"
  by (simp add: power_int_add_1)

lemma two_powi_pred: "(2::rat) powi (k - 1) = 2 powi k / 2"
  by (simp add: power_int_diff)

lemma expo_bounds: "0 < x \<Longrightarrow> 2 powi expo x \<le> x \<and> x < 2 powi (expo x + 1)"
proof (induction x rule: expo.induct)
  case (1 x)
  show ?case
  proof (cases "2 \<le> x")
    case True
    with "1.prems" have e: "expo x = expo (x / 2) + 1" by (subst expo.simps) simp
    from "1.IH"(1) [of] "1.prems" True
    have "2 powi expo (x / 2) \<le> x / 2 \<and> x / 2 < 2 powi (expo (x / 2) + 1)" by simp
    moreover have "(2::rat) powi (expo (x / 2) + 1 + 1) = 2 * 2 powi (expo (x / 2) + 1)"
      by (rule two_powi_Suc)
    moreover have "(2::rat) powi (expo (x / 2) + 1) = 2 * 2 powi expo (x / 2)"
      by (rule two_powi_Suc)
    ultimately show ?thesis unfolding e by linarith
  next
    case False
    show ?thesis
    proof (cases "x < 1")
      case True
      with "1.prems" False have e: "expo x = expo (2 * x) - 1" by (subst expo.simps) simp
      from "1.IH"(2) "1.prems" False True
      have "2 powi expo (2 * x) \<le> 2 * x \<and> 2 * x < 2 powi (expo (2 * x) + 1)" by simp
      moreover have "(2::rat) powi (expo (2 * x) - 1 + 1) = 2 powi expo (2 * x)" by simp
      moreover have "(2::rat) powi (expo (2 * x) - 1) = 2 powi expo (2 * x) / 2"
        by (rule two_powi_pred)
      moreover have "(2::rat) powi (expo (2 * x) + 1) = 2 * 2 powi expo (2 * x)"
        by (rule two_powi_Suc)
      ultimately show ?thesis unfolding e by linarith
    next
      case ge1: False
      with "1.prems" False have e: "expo x = 0" by (subst expo.simps) simp
      from ge1 False show ?thesis unfolding e by simp
    qed
  qed
qed

lemma expo_unique:
  assumes "0 < x" and "2 powi k \<le> x" and "x < 2 powi (k + 1)"
  shows "expo x = k"
proof -
  from expo_bounds [OF assms(1)]
  have lo: "2 powi expo x \<le> x" and hi: "x < 2 powi (expo x + 1)" by simp_all
  have "\<not> k + 1 \<le> expo x"
  proof
    assume "k + 1 \<le> expo x"
    then have "(2::rat) powi (k + 1) \<le> 2 powi expo x" by (intro power_int_increasing) simp_all
    with lo assms(3) show False by simp
  qed
  moreover have "\<not> expo x + 1 \<le> k"
  proof
    assume "expo x + 1 \<le> k"
    then have "(2::rat) powi (expo x + 1) \<le> 2 powi k" by (intro power_int_increasing) simp_all
    with hi assms(2) show False by simp
  qed
  ultimately show ?thesis by simp
qed

lemma round_even_of_int: "round_even (of_int m) = m"
  by (simp add: round_even_def)

lemma round_even_ge: "of_int n \<le> y \<Longrightarrow> n \<le> round_even y"
proof -
  assume "of_int n \<le> y"
  then have "n \<le> \<lfloor>y\<rfloor>" by (simp add: le_floor_iff)
  then show ?thesis by (simp add: round_even_def Let_def)
qed

lemma round_even_le: "y \<le> of_int n \<Longrightarrow> round_even y \<le> n"
proof -
  assume h: "y \<le> of_int n"
  show ?thesis
  proof (cases "y = of_int n")
    case True
    then show ?thesis by (simp add: round_even_of_int)
  next
    case False
    with h have "y < of_int n" by simp
    then have "\<lfloor>y\<rfloor> < n" by (simp add: floor_less_iff)
    then show ?thesis by (simp add: round_even_def Let_def)
  qed
qed

lemma expo_le: "0 < a \<Longrightarrow> a < 2 powi (k + 1) \<Longrightarrow> expo a \<le> k"
proof (rule ccontr)
  assume a: "0 < a" and hi: "a < 2 powi (k + 1)" and "\<not> expo a \<le> k"
  then have "k + 1 \<le> expo a" by simp
  then have "(2::rat) powi (k + 1) \<le> 2 powi expo a" by (intro power_int_increasing) simp_all
  with expo_bounds [OF a] hi show False by simp
qed

lemma quantum_exponent:
  assumes "0 < a" and "- 1022 \<le> e" and "2 powi e \<le> a \<or> e = - 1022" and "a < 2 powi (e + 1)"
  shows "max (expo a) (- 1022) = e"
proof (cases "2 powi e \<le> a")
  case True
  with assms have "expo a = e" by (intro expo_unique) simp_all
  with assms(2) show ?thesis by simp
next
  case False
  with assms(3) have e: "e = - 1022" by simp
  with assms have "expo a \<le> - 1022" by (intro expo_le) simp_all
  with e show ?thesis by simp
qed

lemma round_double_at:
  assumes "x \<noteq> 0" and "- 1022 \<le> e" and "2 powi e \<le> \<bar>x\<bar> \<or> e = - 1022"
    and "\<bar>x\<bar> < 2 powi (e + 1)"
  shows "round_double x =
     (let m = round_even (\<bar>x\<bar> / 2 powi (e - 52)); r = of_int m * 2 powi (e - 52)
      in if 2 ^ 1024 \<le> r then (if x < 0 then NInf else PInf)
         else if m = 0 then (if x < 0 then NegZero else Fin 0)
         else Fin (if x < 0 then - r else r))"
proof -
  from assms have "0 < \<bar>x\<bar>" by simp
  from quantum_exponent [OF this assms(2) assms(3) assms(4)]
  have q: "max (expo \<bar>x\<bar>) (- 1022) = e" .
  show ?thesis unfolding round_double_def Let_def q by (simp only: assms(1) if_False)
qed

lemma two_powi_52: "(2::rat) powi e = 2 ^ 52 * 2 powi (e - 52)"
proof -
  have "(2::rat) powi (52 + (e - 52)) = 2 powi 52 * 2 powi (e - 52)"
    by (rule power_int_add) simp
  then show ?thesis by simp
qed

lemma two_powi_53: "(2::rat) powi (e + 1) = 2 ^ 53 * 2 powi (e - 52)"
proof -
  have "(2::rat) powi (53 + (e - 52)) = 2 powi 53 * 2 powi (e - 52)"
    by (rule power_int_add) simp
  moreover have "53 + (e - 52) = e + 1" by simp
  ultimately show ?thesis by simp
qed

lemma round_double_shape:
  assumes "round_double x = Fin r" and "r \<noteq> 0"
  shows "\<exists>e m. - 1022 \<le> e \<and> 1 \<le> m \<and> m \<le> 2 ^ 53 \<and> (2 ^ 52 \<le> m \<or> e = - 1022)
           \<and> \<bar>r\<bar> = of_int m * 2 powi (e - 52) \<and> \<bar>r\<bar> < 2 ^ 1024 \<and> (r < 0) = (x < 0)"
proof -
  define a where "a = \<bar>x\<bar>"
  define e where "e = max (expo a) (- 1022)"
  define q :: rat where "q = 2 powi (e - 52)"
  define m where "m = round_even (a / q)"
  from assms have x0: "x \<noteq> 0" by (auto simp: round_double_def)
  then have a0: "0 < a" by (simp add: a_def)
  have q0: "0 < q" by (simp add: q_def)
  have "round_double x =
     (if 2 ^ 1024 \<le> of_int m * q then (if x < 0 then NInf else PInf)
      else if m = 0 then (if x < 0 then NegZero else Fin 0)
      else Fin (if x < 0 then - (of_int m * q) else of_int m * q))"
    unfolding round_double_def Let_def m_def q_def e_def a_def by (simp only: x0 if_False)
  with assms(1) have res:
    "(if 2 ^ 1024 \<le> of_int m * q then (if x < 0 then NInf else PInf)
      else if m = 0 then (if x < 0 then NegZero else Fin 0)
      else Fin (if x < 0 then - (of_int m * q) else of_int m * q)) = Fin r"
    by simp
  have m_nonneg: "0 \<le> m"
    unfolding m_def using a0 q0 by (intro round_even_ge) simp
  from res assms(2) have small: "\<not> 2 ^ 1024 \<le> of_int m * q" and m0: "m \<noteq> 0"
    and r: "r = (if x < 0 then - (of_int m * q) else of_int m * q)"
    by (auto split: if_splits)
  from m_nonneg m0 have m1: "1 \<le> m" by simp
  then have mq: "0 < of_int m * q" using q0 by simp
  have abs_r: "\<bar>r\<bar> = of_int m * q" using r mq by (simp split: if_splits)
  have sign: "(r < 0) = (x < 0)" using r mq by (auto split: if_splits)
  have "a < 2 powi (expo a + 1)" using expo_bounds [OF a0] by simp
  also have "\<dots> \<le> 2 powi (e + 1)" unfolding e_def by (intro power_int_increasing) simp_all
  also have "\<dots> = 2 ^ 53 * q" unfolding q_def by (rule two_powi_53)
  finally have "a / q < 2 ^ 53" using q0 by (simp add: field_simps)
  then have "a / q \<le> of_int (2 ^ 53)" by simp
  then have m_hi: "m \<le> 2 ^ 53" unfolding m_def by (rule round_even_le)
  have m_lo: "2 ^ 52 \<le> m \<or> e = - 1022"
  proof (cases "- 1022 \<le> expo a")
    case True
    then have "e = expo a" by (simp add: e_def)
    then have "2 powi e \<le> a" using expo_bounds [OF a0] by simp
    then have "2 ^ 52 * q \<le> a" unfolding q_def using two_powi_52 [of e] by simp
    then have "of_int (2 ^ 52) \<le> a / q" using q0 by (simp add: field_simps)
    then have "2 ^ 52 \<le> m" unfolding m_def by (rule round_even_ge)
    then show ?thesis by simp
  next
    case False
    then show ?thesis by (simp add: e_def)
  qed
  have e_lo: "- 1022 \<le> e" by (simp add: e_def)
  from e_lo m1 m_hi m_lo abs_r small sign show ?thesis
    unfolding q_def by (intro exI [of _ e] exI [of _ m]) simp
qed

lemma round_double_idem:
  assumes "round_double x = Fin r"
  shows "round_double r = Fin r"
proof (cases "r = 0")
  case True
  then show ?thesis by (simp add: round_double_def)
next
  case False
  from round_double_shape [OF assms False] obtain e m where
    e: "- 1022 \<le> e" and m1: "1 \<le> m" and m_hi: "m \<le> 2 ^ 53"
    and m_lo: "2 ^ 52 \<le> m \<or> e = - 1022"
    and r: "\<bar>r\<bar> = of_int m * 2 powi (e - 52)" and small: "\<bar>r\<bar> < 2 ^ 1024"
    by blast
  have q0: "0 < (2::rat) powi (e - 52)" by simp
  show ?thesis
  proof (cases "m = 2 ^ 53")
    case True
    with r have r1: "\<bar>r\<bar> = 2 powi (e + 1)" by (simp add: two_powi_53)
    have div: "\<bar>r\<bar> / 2 powi (e + 1 - 52) = of_int (2 ^ 52)"
      unfolding r1 using two_powi_52 [of "e + 1"] by simp
    have again: "of_int (2 ^ 52) * 2 powi (e + 1 - 52) = \<bar>r\<bar>"
      unfolding r1 using two_powi_52 [of "e + 1"] by simp
    have "r \<noteq> 0" by fact
    moreover have "- 1022 \<le> e + 1" using e by simp
    moreover have "2 powi (e + 1) \<le> \<bar>r\<bar> \<or> e + 1 = - 1022" using r1 by simp
    moreover have "\<bar>r\<bar> < 2 powi (e + 1 + 1)" unfolding r1 by (intro power_int_strict_increasing) simp_all
    ultimately have "round_double r =
     (let m = round_even (\<bar>r\<bar> / 2 powi (e + 1 - 52)); r' = of_int m * 2 powi (e + 1 - 52)
      in if 2 ^ 1024 \<le> r' then (if r < 0 then NInf else PInf)
         else if m = 0 then (if r < 0 then NegZero else Fin 0)
         else Fin (if r < 0 then - r' else r'))"
      by (rule round_double_at)
    then show ?thesis
      unfolding Let_def div round_even_of_int again using small by auto
  next
    case False
    with m_hi have m_lt: "m < 2 ^ 53" by simp
    have div: "\<bar>r\<bar> / 2 powi (e - 52) = of_int m" unfolding r by simp
    have "(of_int m :: rat) < of_int (2 ^ 53)" using m_lt by (simp only: of_int_less_iff)
    then have "of_int m * 2 powi (e - 52) < (of_int (2 ^ 53) :: rat) * 2 powi (e - 52)"
      using q0 by (rule mult_strict_right_mono)
    then have hi: "\<bar>r\<bar> < 2 powi (e + 1)" unfolding r by (simp add: two_powi_53)
    have lo: "2 powi e \<le> \<bar>r\<bar> \<or> e = - 1022"
    proof (cases "2 ^ 52 \<le> m")
      case True
      then have "(of_int (2 ^ 52) :: rat) \<le> of_int m" by (simp only: of_int_le_iff)
      then have "(of_int (2 ^ 52) :: rat) * 2 powi (e - 52) \<le> of_int m * 2 powi (e - 52)"
        using q0 by (intro mult_right_mono) simp_all
      then show ?thesis unfolding r using two_powi_52 [of e] by simp
    next
      case no: False
      with m_lo show ?thesis by simp
    qed
    have "round_double r =
     (let m = round_even (\<bar>r\<bar> / 2 powi (e - 52)); r' = of_int m * 2 powi (e - 52)
      in if 2 ^ 1024 \<le> r' then (if r < 0 then NInf else PInf)
         else if m = 0 then (if r < 0 then NegZero else Fin 0)
         else Fin (if r < 0 then - r' else r'))"
      using \<open>r \<noteq> 0\<close> e lo hi by (rule round_double_at)
    then show ?thesis
      unfolding Let_def div round_even_of_int r [symmetric] using small m1 by auto
  qed
qed

lemma two_powi_1074: "- 1022 \<le> e \<Longrightarrow> (2::rat) powi (e - 52) = of_int (2 ^ nat (e + 1022)) * 2 powi (- 1074)"
proof -
  assume e: "- 1022 \<le> e"
  have "(2::rat) powi ((e + 1022) + (- 1074)) = 2 powi (e + 1022) * 2 powi (- 1074)"
    by (rule power_int_add) simp
  moreover have "(e + 1022) + (- 1074) = e - 52" by simp
  moreover have "(2::rat) powi (e + 1022) = 2 ^ nat (e + 1022)"
    using e by (simp add: power_int_def)
  ultimately show ?thesis by simp
qed

lemma round_double_grid:
  assumes "round_double x = Fin r"
  shows "\<exists>n::int. r = of_int n * 2 powi (- 1074)"
proof (cases "r = 0")
  case True
  then show ?thesis by (intro exI [of _ 0]) simp
next
  case False
  from round_double_shape [OF assms False] obtain e m where
    e: "- 1022 \<le> e" and r: "\<bar>r\<bar> = of_int m * 2 powi (e - 52)"
    by blast
  have abs_r: "\<bar>r\<bar> = of_int (m * 2 ^ nat (e + 1022)) * 2 powi (- 1074)"
    unfolding r two_powi_1074 [OF e] by simp
  show ?thesis
  proof (cases "r < 0")
    case True
    with abs_r have "r = of_int (- (m * 2 ^ nat (e + 1022))) * 2 powi (- 1074)" by simp
    then show ?thesis by (rule exI)
  next
    case False
    with abs_r have "r = of_int (m * 2 ^ nat (e + 1022)) * 2 powi (- 1074)" by simp
    then show ?thesis by (rule exI)
  qed
qed

lemma grid_no_underflow:
  assumes "x = of_int n * 2 powi (- 1074)" and "x \<noteq> 0"
  shows "round_double x \<noteq> NegZero"
proof
  assume nz: "round_double x = NegZero"
  define a where "a = \<bar>x\<bar>"
  define e where "e = max (expo a) (- 1022)"
  define q :: rat where "q = 2 powi (e - 52)"
  define m where "m = round_even (a / q)"
  have a0: "0 < a" using assms(2) by (simp add: a_def)
  have q0: "0 < q" by (simp add: q_def)
  have "round_double x =
     (if 2 ^ 1024 \<le> of_int m * q then (if x < 0 then NInf else PInf)
      else if m = 0 then (if x < 0 then NegZero else Fin 0)
      else Fin (if x < 0 then - (of_int m * q) else of_int m * q))"
    unfolding round_double_def Let_def m_def q_def e_def a_def by (simp only: assms(2) if_False)
  with nz have m0: "m = 0" by (auto split: if_splits)
  from assms have "n \<noteq> 0" by auto
  then have "1 \<le> \<bar>n\<bar>" by simp
  then have "(1::rat) \<le> of_int \<bar>n\<bar>" by (simp only: of_int_1_le_iff)
  then have "1 * 2 powi (- 1074) \<le> (of_int \<bar>n\<bar> :: rat) * 2 powi (- 1074)"
    by (intro mult_right_mono) simp_all
  then have tiny: "2 powi (- 1074) \<le> a" by (simp add: a_def assms(1) abs_mult)
  have "q \<le> a"
  proof (cases "- 1022 \<le> expo a")
    case True
    then have "e = expo a" by (simp add: e_def)
    then have "q \<le> 2 powi expo a" unfolding q_def by (intro power_int_increasing) simp_all
    with expo_bounds [OF a0] show ?thesis by simp
  next
    case False
    then have "e = - 1022" by (simp add: e_def)
    then have "q = 2 powi (- 1074)" by (simp add: q_def)
    with tiny show ?thesis by simp
  qed
  then have "of_int 1 \<le> a / q" using q0 by (simp add: field_simps)
  then have "1 \<le> m" unfolding m_def by (rule round_even_ge)
  with m0 show False by simp
qed

lemma round_double_of_int:
  assumes "\<bar>n\<bar> < 2 ^ 53"
  shows "round_double (of_int n) = Fin (of_int n)"
proof (cases "n = 0")
  case True
  then show ?thesis by (simp add: round_double_def)
next
  case False
  define a :: rat where "a = \<bar>of_int n\<bar>"
  define e where "e = expo a"
  have a_int: "a = of_int \<bar>n\<bar>" by (simp add: a_def)
  have "1 \<le> \<bar>n\<bar>" using False by simp
  then have a1: "1 \<le> a" unfolding a_int by (simp only: of_int_1_le_iff)
  then have a0: "0 < a" by simp
  have a_hi: "a < 2 ^ 53"
  proof -
    have "(of_int \<bar>n\<bar> :: rat) < of_int (2 ^ 53)" using assms by (simp only: of_int_less_iff)
    then show ?thesis by (simp add: a_int)
  qed
  from expo_bounds [OF a0] have lo: "2 powi e \<le> a" and hi: "a < 2 powi (e + 1)"
    by (simp_all add: e_def)
  have e0: "0 \<le> e"
  proof (rule ccontr)
    assume "\<not> 0 \<le> e"
    then have "e + 1 \<le> 0" by simp
    then have "(2::rat) powi (e + 1) \<le> 2 powi 0" by (intro power_int_increasing) simp_all
    with hi a1 show False by simp
  qed
  have e52: "e \<le> 52"
  proof (rule ccontr)
    assume "\<not> e \<le> 52"
    then have "53 \<le> e" by simp
    then have "(2::rat) powi 53 \<le> 2 powi e" by (intro power_int_increasing) simp_all
    with lo a_hi show False by simp
  qed
  have q: "(2::rat) powi (e - 52) * 2 ^ nat (52 - e) = 1"
  proof -
    have "(2::rat) powi ((e - 52) + (52 - e)) = 2 powi (e - 52) * 2 powi (52 - e)"
      by (rule power_int_add) simp
    moreover have "(2::rat) powi (52 - e) = 2 ^ nat (52 - e)" using e52 by (simp add: power_int_def)
    ultimately show ?thesis by simp
  qed
  have q0: "0 < (2::rat) powi (e - 52)" by simp
  have div: "a / 2 powi (e - 52) = of_int (\<bar>n\<bar> * 2 ^ nat (52 - e))"
  proof -
    have "a / 2 powi (e - 52) = a * 2 ^ nat (52 - e)"
      using q q0 by (simp add: field_simps)
    then show ?thesis by (simp add: a_int)
  qed
  have again: "of_int (\<bar>n\<bar> * 2 ^ nat (52 - e)) * 2 powi (e - 52) = a"
  proof -
    have "of_int (\<bar>n\<bar> * 2 ^ nat (52 - e)) * 2 powi (e - 52)
        = a * (2 powi (e - 52) * 2 ^ nat (52 - e))" by (simp add: a_int)
    then show ?thesis unfolding q by simp
  qed
  have m0: "\<bar>n\<bar> * 2 ^ nat (52 - e) \<noteq> 0" using False by simp
  have small: "\<not> 2 ^ 1024 \<le> a"
  proof -
    have "(2::rat) ^ 53 \<le> 2 ^ 1024" by (intro power_increasing) simp_all
    with a_hi show ?thesis by simp
  qed
  have x0: "(of_int n :: rat) \<noteq> 0" using False by simp
  have "- 1022 \<le> e" using e0 by simp
  moreover have "2 powi e \<le> \<bar>of_int n :: rat\<bar> \<or> e = - 1022" using lo by (simp add: a_def)
  moreover have "\<bar>of_int n :: rat\<bar> < 2 powi (e + 1)" using hi by (simp add: a_def)
  ultimately have "round_double (of_int n) =
     (let m = round_even (\<bar>of_int n\<bar> / 2 powi (e - 52)); r = of_int m * 2 powi (e - 52)
      in if 2 ^ 1024 \<le> r then (if (of_int n :: rat) < 0 then NInf else PInf)
         else if m = 0 then (if (of_int n :: rat) < 0 then NegZero else Fin 0)
         else Fin (if (of_int n :: rat) < 0 then - r else r))"
    by (rule round_double_at [OF x0])
  then have "round_double (of_int n) = Fin (if (of_int n :: rat) < 0 then - a else a)"
    unfolding Let_def a_def [symmetric] div round_even_of_int again using small m0 by simp
  then show ?thesis by (simp add: a_def split: if_splits)
qed

lemma round_double_numeral [simp]:
  "(numeral k :: int) < 2 ^ 53 \<Longrightarrow> round_double (numeral k) = Fin (numeral k)"
  "(numeral k :: int) < 2 ^ 53 \<Longrightarrow> round_double (- numeral k) = Fin (- numeral k)"
  "round_double 0 = Fin 0"
  "round_double 1 = Fin 1"
  "round_double (- 1) = Fin (- 1)"
  using round_double_of_int [of "numeral k"] round_double_of_int [of "- numeral k"]
    round_double_of_int [of 0] round_double_of_int [of 1] round_double_of_int [of "- 1"]
  by simp_all

lemma round_double_eval:
  assumes "0 < a" and "- 1022 \<le> e" and "2 powi e \<le> a" and "a < 2 powi (e + 1)"
    and "round_even (a / 2 powi (e - 52)) = m" and "m \<noteq> 0"
    and "of_int m * 2 powi (e - 52) < (2 ^ 1024 :: rat)"
  shows "round_double a = Fin (of_int m * 2 powi (e - 52))"
proof -
  have "a \<noteq> 0" using assms(1) by simp
  moreover have "2 powi e \<le> \<bar>a\<bar> \<or> e = - 1022" using assms(1,3) by simp
  moreover have "\<bar>a\<bar> < 2 powi (e + 1)" using assms(1,4) by simp
  ultimately have "round_double a =
     (let m = round_even (\<bar>a\<bar> / 2 powi (e - 52)); r = of_int m * 2 powi (e - 52)
      in if 2 ^ 1024 \<le> r then (if a < 0 then NInf else PInf)
         else if m = 0 then (if a < 0 then NegZero else Fin 0)
         else Fin (if a < 0 then - r else r))"
    using assms(2) by (intro round_double_at) simp_all
  moreover have "\<bar>a\<bar> = a" using assms(1) by simp
  ultimately show ?thesis using assms(1,5,6,7) by (simp add: Let_def)
qed

lemma round_even_near: "\<bar>y - of_int m\<bar> < 1 / 2 \<Longrightarrow> round_even y = m"
proof -
  assume h: "\<bar>y - of_int m\<bar> < 1 / 2"
  show ?thesis
  proof (cases "of_int m \<le> y")
    case True
    with h have "\<lfloor>y\<rfloor> = m" by (intro floor_unique) (simp_all add: abs_if split: if_splits)
    with h True show ?thesis by (simp add: round_even_def Let_def)
  next
    case False
    with h have f: "\<lfloor>y\<rfloor> = m - 1" by (intro floor_unique) (simp_all add: abs_if split: if_splits)
    from h False have "1 / 2 < y - of_int (m - 1)" by (simp add: abs_if split: if_splits)
    with f show ?thesis by (simp add: round_even_def Let_def)
  qed
qed

lemma round_even_tie: "y = of_int m + 1 / 2 \<Longrightarrow> round_even y = (if even m then m else m + 1)"
proof -
  assume y: "y = of_int m + 1 / 2"
  then have "\<lfloor>y\<rfloor> = m" by (intro floor_unique) simp_all
  with y show ?thesis by (simp add: round_even_def Let_def)
qed

subsection \<open>Arithmetic of the totals\<close>

lemma js_canonical_round: "js_canonical (round_double x)"
  by (cases "round_double x") (simp_all add: round_double_idem)

lemma js_canonical_zero: "js_canonical (Fin 0)"
  by simp

lemma js_add_zero_right: "js_canonical x \<Longrightarrow> x \<noteq> NegZero \<Longrightarrow> js_add x (Fin 0) = x"
  by (cases x) simp_all

lemma js_add_canonical:
  assumes "js_canonical x" and "js_canonical y" and "x \<noteq> NegZero"
  shows "js_canonical (js_add x y) \<and> js_add x y \<noteq> NegZero"
proof (cases "\<exists>a b. x = Fin a \<and> y = Fin b")
  case True
  then obtain a b where x: "x = Fin a" and y: "y = Fin b" by blast
  from assms x y have ca: "round_double a = Fin a" and cb: "round_double b = Fin b" by simp_all
  from round_double_grid [OF ca] obtain n where a: "a = of_int n * 2 powi (- 1074)" by blast
  from round_double_grid [OF cb] obtain k where b: "b = of_int k * 2 powi (- 1074)" by blast
  have grid: "a + b = of_int (n + k) * 2 powi (- 1074)"
    unfolding a b by (simp add: algebra_simps)
  have "round_double (a + b) \<noteq> NegZero"
  proof (cases "a + b = 0")
    case True
    then show ?thesis by simp
  next
    case False
    with grid show ?thesis by (rule grid_no_underflow)
  qed
  then show ?thesis by (simp add: x y js_canonical_round)
next
  case False
  with assms show ?thesis by (cases x; cases y) simp_all
qed

lemma js_mul_canonical: "js_canonical (js_mul x y)"
  by (cases x; cases y) (simp_all add: js_mul_def js_is_zero_def js_is_inf_def js_canonical_round)

lemma foldl_amounts_canonical:
  "list_all (\<lambda>item. js_canonical (amount item)) its \<Longrightarrow> js_canonical acc \<Longrightarrow> acc \<noteq> NegZero \<Longrightarrow>
   js_canonical (foldl (\<lambda>acc item. js_add acc (amount item)) acc its)
   \<and> foldl (\<lambda>acc item. js_add acc (amount item)) acc its \<noteq> NegZero"
proof (induction its arbitrary: acc)
  case Nil
  then show ?case by simp
next
  case (Cons item its)
  from Cons.prems have "js_canonical (js_add acc (amount item)) \<and> js_add acc (amount item) \<noteq> NegZero"
    by (intro js_add_canonical) simp_all
  with Cons.prems(1) Cons.IH [of "js_add acc (amount item)"] show ?case by simp
qed

lemma amounts_sum_canonical:
  "list_all (\<lambda>item. js_canonical (amount item)) its \<Longrightarrow>
   js_canonical (amounts_sum its) \<and> amounts_sum its \<noteq> NegZero"
  unfolding amounts_sum_def by (rule foldl_amounts_canonical) simp_all

lemma amounts_sum_snoc: "amounts_sum (its @ [item]) = js_add (amounts_sum its) (amount item)"
  by (simp add: amounts_sum_def)

lemma amounts_sum_blank:
  "list_all (\<lambda>item. js_canonical (amount item)) its \<Longrightarrow>
   amounts_sum (its @ [blank_item]) = amounts_sum its"
  using amounts_sum_canonical [of its]
  by (simp add: amounts_sum_snoc blank_item_def js_add_zero_right)

lemma js_or_zero_idem: "js_or_zero (js_or_zero x) = js_or_zero x"
  by (simp add: js_or_zero_def js_is_zero_def)

lemma calculateTotals_eq:
  "calculateTotals its disc g =
     (amounts_sum its,
      js_div (js_mul (js_sub (amounts_sum its) (js_or_zero disc)) (js_or_zero g)) (Fin 100),
      js_add (js_sub (amounts_sum its) (js_or_zero disc))
        (js_div (js_mul (js_sub (amounts_sum its) (js_or_zero disc)) (js_or_zero g)) (Fin 100)))"
  by (simp add: calculateTotals_def amounts_sum_def Let_def)

lemma js_or_zero_number [simp]:
  "a \<noteq> 0 \<Longrightarrow> js_or_zero (Fin a) = Fin a"
  "js_or_zero (Fin 0) = Fin 0"
  by (simp_all add: js_or_zero_def js_is_zero_def)

lemma js_sub_Fin: "b \<noteq> 0 \<Longrightarrow> js_sub (Fin a) (Fin b) = round_double (a - b)"
  by (simp add: js_sub_def)

lemma js_sub_zero: "js_sub (Fin a) (Fin 0) = Fin a"
  by (simp add: js_sub_def)

lemma js_mul_Fin: "a \<noteq> 0 \<Longrightarrow> b \<noteq> 0 \<Longrightarrow> js_mul (Fin a) (Fin b) = round_double (a * b)"
  by (simp add: js_mul_def js_is_zero_def js_is_inf_def)

lemma js_mul_zero: "0 \<le> a \<Longrightarrow> js_mul (Fin a) (Fin 0) = Fin 0"
  by (simp add: js_mul_def js_is_zero_def js_is_inf_def)

lemma js_mul_one: "a \<noteq> 0 \<Longrightarrow> js_mul (Fin 1) (Fin a) = round_double a"
  by (simp add: js_mul_Fin)

lemma js_div_Fin: "a \<noteq> 0 \<Longrightarrow> b \<noteq> 0 \<Longrightarrow> js_div (Fin a) (Fin b) = round_double (a / b)"
  by (simp add: js_div_def js_is_zero_def js_is_inf_def)

lemma js_div_zero: "0 < b \<Longrightarrow> js_div (Fin 0) (Fin b) = Fin 0"
  by (simp add: js_div_def js_is_zero_def js_is_inf_def)

subsection \<open>Texts read by \<^verbatim>\<open>parseFloat\<close>\<close>

lemma double_tenth: "round_double (1 / 10) = Fin (3602879701896397 / 2 ^ 55)"
proof -
  have "round_even ((1 / 10) / 2 powi (- 4 - 52)) = 7205759403792794"
    by (rule round_even_near) simp
  then show ?thesis
    using round_double_eval [of "1 / 10" "- 4" 7205759403792794] by simp
qed

lemma double_fifth: "round_double (1 / 5) = Fin (3602879701896397 / 2 ^ 54)"
proof -
  have "round_even ((1 / 5) / 2 powi (- 3 - 52)) = 7205759403792794"
    by (rule round_even_near) simp
  then show ?thesis
    using round_double_eval [of "1 / 5" "- 3" 7205759403792794] by simp
qed

lemma double_three_tenths: "round_double (3 / 10) = Fin (5404319552844595 / 2 ^ 54)"
proof -
  have "round_even ((3 / 10) / 2 powi (- 2 - 52)) = 5404319552844595"
    by (rule round_even_near) simp
  then show ?thesis
    using round_double_eval [of "3 / 10" "- 2" 5404319552844595] by simp
qed

lemma parseFloat_tenth: "parseFloat ''0.1'' = Fin (3602879701896397 / 2 ^ 55)"
  by (simp add: parseFloat_def js_space_def is_digit_def digits_value_def exponent_part_def
      double_tenth)

lemma parseFloat_fifth: "parseFloat ''0.2'' = Fin (3602879701896397 / 2 ^ 54)"
  by (simp add: parseFloat_def js_space_def is_digit_def digits_value_def exponent_part_def
      double_fifth)

lemma parseFloat_three_tenths: "parseFloat ''0.3'' = Fin (5404319552844595 / 2 ^ 54)"
  by (simp add: parseFloat_def js_space_def is_digit_def digits_value_def exponent_part_def
      double_three_tenths)

lemma parseFloat_150: "parseFloat ''150'' = Fin 150"
  by (simp add: parseFloat_def js_space_def is_digit_def digits_value_def exponent_part_def)

lemma parseFloat_10: "parseFloat ''10'' = Fin 10"
  by (simp add: parseFloat_def js_space_def is_digit_def digits_value_def exponent_part_def)

lemma parseFloat_minus5: "parseFloat ''-5'' = Fin (- 5)"
  by (simp add: parseFloat_def js_space_def is_digit_def digits_value_def exponent_part_def)






subsection \<open>Every handler keeps the totals consistent\<close>

lemma well_formed_empty: "well_formed empty_invoice"
  by (simp add: well_formed_def totals_invariant_def rates_are_numbers_def empty_invoice_def
      blank_item_def js_sub_def amounts_sum_def js_or_zero_def js_is_zero_def js_mul_def
      js_div_def js_is_inf_def)

lemma list_all_update:
  "list_all P xs \<Longrightarrow> P y \<Longrightarrow> list_all P (xs[i := y])"
  by (induction xs arbitrary: i) (auto split: nat.splits)

lemma well_formed_handleItemChange:
  assumes "well_formed draft" and "handleItemChange i e draft = Inr draft'"
  shows "well_formed draft'"
proof -
  from assms(2) have range: "0 \<le> i" "i < int (length (items draft))"
    by (auto simp: handleItemChange_def split: if_splits)
  define it where "it = items draft ! nat i"
  from assms(1) range have old: "js_canonical (amount it)"
    by (simp add: well_formed_def it_def list_all_length)
  define it2 where "it2 = (case e of
      SetDescription v \<Rightarrow> it\<lparr>description := v\<rparr>
    | SetQuantity v \<Rightarrow> it\<lparr>quantity := v, amount := calculateItemAmount v (rate it)\<rparr>
    | SetRate v \<Rightarrow> it\<lparr>rate := v, amount := calculateItemAmount (quantity it) v\<rparr>)"
  have new: "js_canonical (amount it2)"
    using old by (cases e) (simp_all add: it2_def calculateItemAmount_def js_mul_canonical)
  from assms(2) range have d': "draft' =
      draft\<lparr>items := (items draft)[nat i := it2],
        subtotal := fst (calculateTotals ((items draft)[nat i := it2]) (discount draft) (gst_rate draft)),
        gst_amount := fst (snd (calculateTotals ((items draft)[nat i := it2]) (discount draft) (gst_rate draft))),
        total_amount := snd (snd (calculateTotals ((items draft)[nat i := it2]) (discount draft) (gst_rate draft)))\<rparr>"
    by (cases e) (auto simp: handleItemChange_def Let_def it_def it2_def split: prod.splits)
  from assms(1) new have "list_all (\<lambda>item. js_canonical (amount item)) ((items draft)[nat i := it2])"
    by (simp add: well_formed_def list_all_update)
  with assms(1) show ?thesis
    by (simp add: d' well_formed_def totals_invariant_def rates_are_numbers_def calculateTotals_eq)
qed

lemma well_formed_handleDiscountChange:
  "well_formed draft \<Longrightarrow> well_formed (handleDiscountChange v draft)"
  by (simp add: well_formed_def totals_invariant_def rates_are_numbers_def handleDiscountChange_def
      calculateTotals_eq js_or_zero_idem Let_def)

lemma well_formed_handleGSTChange:
  "well_formed draft \<Longrightarrow> well_formed (handleGSTChange v draft)"
  by (simp add: well_formed_def totals_invariant_def rates_are_numbers_def handleGSTChange_def
      calculateTotals_eq js_or_zero_idem Let_def)

lemma well_formed_addItem: "well_formed draft \<Longrightarrow> well_formed (addItem draft)"
  by (simp add: well_formed_def totals_invariant_def rates_are_numbers_def addItem_def
      amounts_sum_blank) (simp add: blank_item_def)

lemma list_all_filter_enumerate:
  "list_all P xs \<Longrightarrow> list_all P (map snd (filter Q (enumerate n xs)))"
  by (induction xs arbitrary: n) simp_all

lemma well_formed_removeItem: "well_formed draft \<Longrightarrow> well_formed (removeItem i draft)"
  by (simp add: well_formed_def totals_invariant_def rates_are_numbers_def removeItem_def
      calculateTotals_eq list_all_filter_enumerate Let_def)

lemma well_formed_createInvoice:
  "well_formed draft \<Longrightarrow> well_formed (fst (createInvoice post draft))"
  by (simp add: createInvoice_def well_formed_empty
      split: option.splits validation_error.splits post_result.splits)

lemma well_formed_other:
  "well_formed draft \<Longrightarrow> well_formed (handlePaymentTypeChange ty draft)"
  "well_formed draft \<Longrightarrow> well_formed (handleCustomerChange f v draft)"
  "well_formed draft \<Longrightarrow> well_formed (setDueDate v draft)"
  "well_formed draft \<Longrightarrow> well_formed (setNotes v draft)"
  "well_formed draft \<Longrightarrow> well_formed (setTerms v draft)"
  by (simp_all add: well_formed_def totals_invariant_def rates_are_numbers_def
      handlePaymentTypeChange_def handleCustomerChange_def setDueDate_def setNotes_def
      setTerms_def Let_def)

lemma well_formed_apply_call: "well_formed draft \<Longrightarrow> well_formed (apply_call c draft)"
  by (cases c)
    (auto simp: well_formed_addItem well_formed_removeItem well_formed_handleDiscountChange
      well_formed_handleGSTChange well_formed_createInvoice well_formed_other
      split: sum.splits dest: well_formed_handleItemChange)

lemma well_formed_run: "well_formed draft \<Longrightarrow> well_formed (run cs draft)"
  by (induction cs arbitrary: draft) (simp_all add: well_formed_apply_call)

subsection \<open>Three rows of 0.1, 0.2 and 0.3\<close>

text \<open>
  The rates 0.1, 0.2 and 0.3 are not doubles; the form passes the doubles next to them.
  Adding the three amounts from the first row on rounds twice, and the stored subtotal is
  the double 0.6000000000000001, which is \<open>5404319552844596 / 2 ^ 53\<close>.
\<close>

lemma doubles_fixed:
  "round_double (3602879701896397 / 2 ^ 55) = Fin (3602879701896397 / 2 ^ 55)"
  "round_double (3602879701896397 / 2 ^ 54) = Fin (3602879701896397 / 2 ^ 54)"
  "round_double (5404319552844595 / 2 ^ 54) = Fin (5404319552844595 / 2 ^ 54)"
  using round_double_idem [OF double_tenth] round_double_idem [OF double_fifth]
    round_double_idem [OF double_three_tenths] by simp_all

lemma sum_tenth_fifth:
  "round_double (3602879701896397 / 2 ^ 55 + 3602879701896397 / 2 ^ 54)
     = Fin (5404319552844596 / 2 ^ 54)"
proof -
  have "round_even ((3602879701896397 / 2 ^ 55 + 3602879701896397 / 2 ^ 54) / 2 powi (- 2 - 52))
      = (if even (5404319552844595::int) then 5404319552844595 else 5404319552844595 + 1)"
    by (rule round_even_tie) simp
  then have "round_even ((3602879701896397 / 2 ^ 55 + 3602879701896397 / 2 ^ 54) / 2 powi (- 2 - 52))
      = 5404319552844596" by simp
  then show ?thesis
    using round_double_eval [of "3602879701896397 / 2 ^ 55 + 3602879701896397 / 2 ^ 54" "- 2"
        5404319552844596] by simp
qed

lemma sum_three_rows:
  "round_double (5404319552844596 / 2 ^ 54 + 5404319552844595 / 2 ^ 54)
     = Fin (5404319552844596 / 2 ^ 53)"
proof -
  have "round_even ((5404319552844596 / 2 ^ 54 + 5404319552844595 / 2 ^ 54) / 2 powi (- 1 - 52))
      = (if even (5404319552844595::int) then 5404319552844595 else 5404319552844595 + 1)"
    by (rule round_even_tie) simp
  then have "round_even ((5404319552844596 / 2 ^ 54 + 5404319552844595 / 2 ^ 54) / 2 powi (- 1 - 52))
      = 5404319552844596" by simp
  then show ?thesis
    using round_double_eval [of "5404319552844596 / 2 ^ 54 + 5404319552844595 / 2 ^ 54" "- 1"
        5404319552844596] by simp
qed

lemma sums_fixed:
  "round_double (5404319552844596 / 2 ^ 54) = Fin (5404319552844596 / 2 ^ 54)"
  "round_double (5404319552844596 / 2 ^ 53) = Fin (5404319552844596 / 2 ^ 53)"
  using round_double_idem [OF sum_tenth_fifth] round_double_idem [OF sum_three_rows] by simp_all

lemma amounts_sum_three_rows:
  "amounts_sum
     [\<lparr>description = [], quantity = Fin 1, rate = Fin (3602879701896397 / 2 ^ 55),
        amount = Fin (3602879701896397 / 2 ^ 55)\<rparr>,
      \<lparr>description = [], quantity = Fin 1, rate = Fin (3602879701896397 / 2 ^ 54),
        amount = Fin (3602879701896397 / 2 ^ 54)\<rparr>,
      \<lparr>description = [], quantity = Fin 1, rate = Fin (5404319552844595 / 2 ^ 54),
        amount = Fin (5404319552844595 / 2 ^ 54)\<rparr>]
   = Fin (5404319552844596 / 2 ^ 53)"
  using doubles_fixed sum_tenth_fifth sum_three_rows
  by (simp add: amounts_sum_def)

lemma three_rows_run:
  "run [SetItemField 0 (SetRate (parseFloat ''0.1'')), AddItem,
        SetItemField 1 (SetRate (parseFloat ''0.2'')), AddItem,
        SetItemField 2 (SetRate (parseFloat ''0.3''))] empty_invoice
   = empty_invoice\<lparr>items :=
       [\<lparr>description = [], quantity = Fin 1, rate = Fin (3602879701896397 / 2 ^ 55),
          amount = Fin (3602879701896397 / 2 ^ 55)\<rparr>,
        \<lparr>description = [], quantity = Fin 1, rate = Fin (3602879701896397 / 2 ^ 54),
          amount = Fin (3602879701896397 / 2 ^ 54)\<rparr>,
        \<lparr>description = [], quantity = Fin 1, rate = Fin (5404319552844595 / 2 ^ 54),
          amount = Fin (5404319552844595 / 2 ^ 54)\<rparr>],
       subtotal := Fin (5404319552844596 / 2 ^ 53),
       total_amount := Fin (5404319552844596 / 2 ^ 53)\<rparr>"
  using doubles_fixed sums_fixed sum_tenth_fifth sum_three_rows
  by (simp add: handleItemChange_def addItem_def calculateTotals_def calculateItemAmount_def
      empty_invoice_def blank_item_def parseFloat_tenth parseFloat_fifth parseFloat_three_tenths
      js_mul_one js_mul_zero js_div_zero js_sub_zero Let_def)

text \<open>
  C1. Start from the initial draft and make any sequence of calls (item edits, added and
  removed rows, discount and tax rate changes, and the other handlers as well). After
  every call of the sequence the stored subtotal is the sum of the amounts of the rows,
  added in row order, the stored tax amount is (subtotal - discount) * rate / 100, and the
  stored total is (subtotal - discount) plus the tax amount, each operation rounding as the
  source's does. Nothing is clamped: a discount of 150 on a subtotal of 100 at a rate of 10
  stores the tax amount -5. Rows of 0.1, 0.2 and 0.3 store the subtotal
  0.6000000000000001.
\<close>

theorem totals_invariant_after_every_call:
  "totals_invariant (run (take n cs) empty_invoice)
   \<and> gst_amount (run [SetItemField 0 (SetRate (Fin 100)), SetDiscount ''150'', SetGstRate ''10'']
        empty_invoice) = Fin (- 5)
   \<and> subtotal (run [SetItemField 0 (SetRate (parseFloat ''0.1'')), AddItem,
        SetItemField 1 (SetRate (parseFloat ''0.2'')), AddItem,
        SetItemField 2 (SetRate (parseFloat ''0.3''))] empty_invoice)
       = Fin (5404319552844596 / 2 ^ 53)"
proof (intro conjI)
  show "totals_invariant (run (take n cs) empty_invoice)"
    using well_formed_run [OF well_formed_empty, of "take n cs"] by (simp add: well_formed_def)
  show "gst_amount (run [SetItemField 0 (SetRate (Fin 100)), SetDiscount ''150'', SetGstRate ''10'']
        empty_invoice) = Fin (- 5)"
    by (simp add: handleItemChange_def handleDiscountChange_def handleGSTChange_def
        calculateTotals_def calculateItemAmount_def empty_invoice_def blank_item_def
        parseFloat_150 parseFloat_10 js_mul_Fin js_div_Fin js_sub_Fin js_mul_zero js_div_zero
        js_sub_zero Let_def)
  show "subtotal (run [SetItemField 0 (SetRate (parseFloat ''0.1'')), AddItem,
        SetItemField 1 (SetRate (parseFloat ''0.2'')), AddItem,
        SetItemField 2 (SetRate (parseFloat ''0.3''))] empty_invoice)
       = Fin (5404319552844596 / 2 ^ 53)"
    unfolding three_rows_run by simp
qed

subsection \<open>Removing a row\<close>

lemma filter_enumerate_index:
  "map snd (filter (\<lambda>(j, x). int j \<noteq> i) (enumerate n xs)) =
     (if int n \<le> i \<and> i < int (n + length xs)
      then take (nat i - n) xs @ drop (Suc (nat i - n)) xs else xs)"
proof (induction xs arbitrary: n)
  case Nil
  show ?case by simp
next
  case (Cons x xs)
  show ?case
  proof (cases "int n = i")
    case True
    then show ?thesis by (simp add: Cons.IH)
  next
    case False
    show ?thesis
    proof (cases "int n < i \<and> i < int (Suc n + length xs)")
      case True
      then have "nat i - n = Suc (nat i - Suc n)" by linarith
      with True False show ?thesis by (simp add: Cons.IH)
    next
      case outside: False
      with False show ?thesis by (auto simp: Cons.IH)
    qed
  qed
qed

lemma removeItem_items:
  "1 < length (items draft) \<Longrightarrow>
   items (removeItem i draft) =
     (if 0 \<le> i \<and> i < int (length (items draft))
      then take (nat i) (items draft) @ drop (Suc (nat i)) (items draft) else items draft)"
  by (simp add: removeItem_def Let_def filter_enumerate_index split: prod.splits)

text \<open>
  C4. From a draft with at least one row, removeItem leaves at least one row. With exactly
  one row the call changes nothing at all, whatever the index. With more than one row and
  an index that is a position of the list, the row at that position is removed, the others
  keep their order, and the totals are computed again from the remaining rows: the
  subtotal is the sum of their amounts, the tax amount is (subtotal - discount) * rate / 100
  and the total is (subtotal - discount) plus the tax amount, with a NaN or zero discount or
  rate read as 0. No other field changes.
\<close>

theorem removeItem_keeps_one_row:
  "(1 \<le> length (items draft) \<longrightarrow> 1 \<le> length (items (removeItem i draft)))
   \<and> (length (items draft) = 1 \<longrightarrow> removeItem i draft = draft)
   \<and> (1 < length (items draft) \<and> 0 \<le> i \<and> i < int (length (items draft)) \<longrightarrow>
        items (removeItem i draft) = take (nat i) (items draft) @ drop (Suc (nat i)) (items draft)
        \<and> length (items (removeItem i draft)) = length (items draft) - 1
        \<and> subtotal (removeItem i draft) = amounts_sum (items (removeItem i draft))
        \<and> gst_amount (removeItem i draft) =
            js_div (js_mul (js_sub (subtotal (removeItem i draft)) (js_or_zero (discount draft)))
                      (js_or_zero (gst_rate draft))) (Fin 100)
        \<and> total_amount (removeItem i draft) =
            js_add (js_sub (subtotal (removeItem i draft)) (js_or_zero (discount draft)))
              (gst_amount (removeItem i draft))
        \<and> removeItem i draft =
            draft\<lparr>items := items (removeItem i draft), subtotal := subtotal (removeItem i draft),
              gst_amount := gst_amount (removeItem i draft),
              total_amount := total_amount (removeItem i draft)\<rparr>)"
proof (intro conjI impI)
  assume "1 \<le> length (items draft)"
  then show "1 \<le> length (items (removeItem i draft))"
    by (cases "1 < length (items draft)") (auto simp: removeItem_items, simp add: removeItem_def)
next
  assume "length (items draft) = 1"
  then show "removeItem i draft = draft" by (simp add: removeItem_def)
next
  assume h: "1 < length (items draft) \<and> 0 \<le> i \<and> i < int (length (items draft))"
  then show "items (removeItem i draft) = take (nat i) (items draft) @ drop (Suc (nat i)) (items draft)"
    by (simp add: removeItem_items)
  from h show "length (items (removeItem i draft)) = length (items draft) - 1"
    by (auto simp: removeItem_items)
  from h show "subtotal (removeItem i draft) = amounts_sum (items (removeItem i draft))"
    by (simp add: removeItem_def Let_def calculateTotals_eq)
  from h show "gst_amount (removeItem i draft) =
            js_div (js_mul (js_sub (subtotal (removeItem i draft)) (js_or_zero (discount draft)))
                      (js_or_zero (gst_rate draft))) (Fin 100)"
    by (simp add: removeItem_def Let_def calculateTotals_eq)
  from h show "total_amount (removeItem i draft) =
            js_add (js_sub (subtotal (removeItem i draft)) (js_or_zero (discount draft)))
              (gst_amount (removeItem i draft))"
    by (simp add: removeItem_def Let_def calculateTotals_eq)
  from h show "removeItem i draft =
            draft\<lparr>items := items (removeItem i draft), subtotal := subtotal (removeItem i draft),
              gst_amount := gst_amount (removeItem i draft),
              total_amount := total_amount (removeItem i draft)\<rparr>"
    by (simp add: removeItem_def Let_def split: prod.splits)
qed

theorem removeItem_keeps_one_row_witness:
  "length (items empty_invoice) = 1
   \<and> removeItem 0 empty_invoice = empty_invoice
   \<and> 1 < length (items
        (empty_invoice\<lparr>items :=
           [\<lparr>description = ''A'', quantity = Fin 2, rate = Fin 50, amount = Fin 100\<rparr>,
            \<lparr>description = ''B'', quantity = Fin 1, rate = Fin 50, amount = Fin 50\<rparr>],
           subtotal := Fin 150, discount := Fin 20, gst_rate := Fin 10, gst_amount := Fin 13,
           total_amount := Fin 143\<rparr>))
   \<and> removeItem 0
        (empty_invoice\<lparr>items :=
           [\<lparr>description = ''A'', quantity = Fin 2, rate = Fin 50, amount = Fin 100\<rparr>,
            \<lparr>description = ''B'', quantity = Fin 1, rate = Fin 50, amount = Fin 50\<rparr>],
           subtotal := Fin 150, discount := Fin 20, gst_rate := Fin 10, gst_amount := Fin 13,
           total_amount := Fin 143\<rparr>)
       = empty_invoice\<lparr>items :=
           [\<lparr>description = ''B'', quantity = Fin 1, rate = Fin 50, amount = Fin 50\<rparr>],
           subtotal := Fin 50, discount := Fin 20, gst_rate := Fin 10, gst_amount := Fin 3,
           total_amount := Fin 33\<rparr>"
proof -
  let ?d = "empty_invoice\<lparr>items :=
           [\<lparr>description = ''A'', quantity = Fin 2, rate = Fin 50, amount = Fin 100\<rparr>,
            \<lparr>description = ''B'', quantity = Fin 1, rate = Fin 50, amount = Fin 50\<rparr>],
           subtotal := Fin 150, discount := Fin 20, gst_rate := Fin 10, gst_amount := Fin 13,
           total_amount := Fin 143\<rparr>"
  have one: "length (items empty_invoice) = 1" by (simp add: empty_invoice_def)
  have two: "1 < length (items ?d) \<and> (0::int) \<le> 0 \<and> 0 < int (length (items ?d))" by simp
  from removeItem_keeps_one_row [of empty_invoice 0] one
  have a: "removeItem 0 empty_invoice = empty_invoice" by blast
  from removeItem_keeps_one_row [of ?d 0] two
  have its: "items (removeItem 0 ?d) = take (nat 0) (items ?d) @ drop (Suc (nat 0)) (items ?d)"
    and st: "subtotal (removeItem 0 ?d) = amounts_sum (items (removeItem 0 ?d))"
    and gst: "gst_amount (removeItem 0 ?d) =
            js_div (js_mul (js_sub (subtotal (removeItem 0 ?d)) (js_or_zero (discount ?d)))
                      (js_or_zero (gst_rate ?d))) (Fin 100)"
    and tot: "total_amount (removeItem 0 ?d) =
            js_add (js_sub (subtotal (removeItem 0 ?d)) (js_or_zero (discount ?d)))
              (gst_amount (removeItem 0 ?d))"
    and rest: "removeItem 0 ?d =
            ?d\<lparr>items := items (removeItem 0 ?d), subtotal := subtotal (removeItem 0 ?d),
              gst_amount := gst_amount (removeItem 0 ?d),
              total_amount := total_amount (removeItem 0 ?d)\<rparr>"
    by blast+
  have its': "items (removeItem 0 ?d)
      = [\<lparr>description = ''B'', quantity = Fin 1, rate = Fin 50, amount = Fin 50\<rparr>]"
    using its by simp
  have st': "subtotal (removeItem 0 ?d) = Fin 50"
    unfolding st its' by (simp add: amounts_sum_def)
  have gst': "gst_amount (removeItem 0 ?d) = Fin 3"
    unfolding gst st' by (simp add: js_sub_Fin js_mul_Fin js_div_Fin)
  have tot': "total_amount (removeItem 0 ?d) = Fin 33"
    unfolding tot st' gst' by (simp add: js_sub_Fin)
  have b: "removeItem 0 ?d = empty_invoice\<lparr>items :=
           [\<lparr>description = ''B'', quantity = Fin 1, rate = Fin 50, amount = Fin 50\<rparr>],
           subtotal := Fin 50, discount := Fin 20, gst_rate := Fin 10, gst_amount := Fin 3,
           total_amount := Fin 33\<rparr>"
    by (subst rest) (simp add: its' st' gst' tot')
  from one a two b show ?thesis by blast
qed

lemma removeItem_off_range:
  assumes "well_formed draft" and "1 < length (items draft)"
    and "i < 0 \<or> int (length (items draft)) \<le> i"
  shows "removeItem i draft = draft"
proof -
  have its: "map snd (filter (\<lambda>(j, x). int j \<noteq> i) (enumerate 0 (items draft))) = items draft"
    using assms(3) by (auto simp: filter_enumerate_index)
  show ?thesis
    using assms(1,2)
    by (simp add: removeItem_def its Let_def calculateTotals_eq
        well_formed_def totals_invariant_def rates_are_numbers_def)
qed

text \<open>
  C10. A draft of the engine is what a sequence of calls makes of the initial draft. Take
  such a draft with more than one row, and an index that is negative or not below the
  number of rows. Then removeItem returns a draft (it has no error result) which is the
  same draft: the filter keeps every row, and the recomputed subtotal, tax amount and total
  are the stored ones.
\<close>

theorem removeItem_out_of_range:
  "1 < length (items (run cs empty_invoice)) \<Longrightarrow>
   i < 0 \<or> int (length (items (run cs empty_invoice))) \<le> i \<Longrightarrow>
   removeItem i (run cs empty_invoice) = run cs empty_invoice
   \<and> items (removeItem i (run cs empty_invoice)) = items (run cs empty_invoice)
   \<and> subtotal (removeItem i (run cs empty_invoice)) = subtotal (run cs empty_invoice)
   \<and> gst_amount (removeItem i (run cs empty_invoice)) = gst_amount (run cs empty_invoice)
   \<and> total_amount (removeItem i (run cs empty_invoice)) = total_amount (run cs empty_invoice)"
proof -
  assume len: "1 < length (items (run cs empty_invoice))"
    and out: "i < 0 \<or> int (length (items (run cs empty_invoice))) \<le> i"
  have "well_formed (run cs empty_invoice)"
    using well_formed_empty by (rule well_formed_run)
  then have "removeItem i (run cs empty_invoice) = run cs empty_invoice"
    using len out by (rule removeItem_off_range)
  then show ?thesis by simp
qed

theorem removeItem_out_of_range_witness:
  "1 < length (items (run [SetItemField 0 (SetRate (parseFloat ''0.1'')), AddItem,
        SetItemField 1 (SetRate (parseFloat ''0.2'')), AddItem,
        SetItemField 2 (SetRate (parseFloat ''0.3''))] empty_invoice))
   \<and> removeItem 5 (run [SetItemField 0 (SetRate (parseFloat ''0.1'')), AddItem,
        SetItemField 1 (SetRate (parseFloat ''0.2'')), AddItem,
        SetItemField 2 (SetRate (parseFloat ''0.3''))] empty_invoice)
       = run [SetItemField 0 (SetRate (parseFloat ''0.1'')), AddItem,
        SetItemField 1 (SetRate (parseFloat ''0.2'')), AddItem,
        SetItemField 2 (SetRate (parseFloat ''0.3''))] empty_invoice
   \<and> subtotal (removeItem (- 1) (run [SetItemField 0 (SetRate (parseFloat ''0.1'')), AddItem,
        SetItemField 1 (SetRate (parseFloat ''0.2'')), AddItem,
        SetItemField 2 (SetRate (parseFloat ''0.3''))] empty_invoice))
       = Fin (5404319552844596 / 2 ^ 53)"
proof -
  let ?cs = "[SetItemField 0 (SetRate (parseFloat ''0.1'')), AddItem,
        SetItemField 1 (SetRate (parseFloat ''0.2'')), AddItem,
        SetItemField 2 (SetRate (parseFloat ''0.3''))]"
  have len: "1 < length (items (run ?cs empty_invoice))"
    unfolding three_rows_run by simp
  have hi: "(5::int) < 0 \<or> int (length (items (run ?cs empty_invoice))) \<le> 5"
    unfolding three_rows_run by simp
  have lo: "(- 1::int) < 0 \<or> int (length (items (run ?cs empty_invoice))) \<le> - 1"
    by simp
  have st: "subtotal (run ?cs empty_invoice) = Fin (5404319552844596 / 2 ^ 53)"
    unfolding three_rows_run by simp
  from removeItem_out_of_range [OF len hi]
  have a: "removeItem 5 (run ?cs empty_invoice) = run ?cs empty_invoice" by (rule conjunct1)
  from removeItem_out_of_range [OF len lo]
  have "subtotal (removeItem (- 1) (run ?cs empty_invoice)) = subtotal (run ?cs empty_invoice)"
    by blast
  with st have b: "subtotal (removeItem (- 1) (run ?cs empty_invoice))
      = Fin (5404319552844596 / 2 ^ 53)" by simp
  from len a b show ?thesis by blast
qed

subsection \<open>Validation and submission\<close>

lemma list_ex_described:
  "list_ex (\<lambda>item. trim (description item) \<noteq> []) its =
     (\<exists>item\<in>set its. trim (description item) \<noteq> [])"
  by (simp add: list_ex_iff)

lemma trim_X: "trim ''X'' = ''X''"
  by (simp add: trim_def js_space_def)

text \<open>
  C3. The validation fails with MissingLineItemDescription exactly when no row has a
  description that is non-empty after trimming. The check of the customer comes second:
  the validation fails with MissingCustomerName exactly when some row is described, the
  payment type is Credit, and the customer is absent or has no name or a name that is
  empty after trimming. Every other draft passes; no other field is looked at.
\<close>

theorem validateForSubmission_conditions:
  "(validateForSubmission draft = Some MissingLineItemDescription) =
     (\<forall>item\<in>set (items draft). trim (description item) = [])
   \<and> (validateForSubmission draft = Some MissingCustomerName) =
       ((\<exists>item\<in>set (items draft). trim (description item) \<noteq> [])
        \<and> payment_type draft = Credit
        \<and> (customer draft = None
           \<or> (\<exists>c. customer draft = Some c
                \<and> (name c = None \<or> (\<exists>n. name c = Some n \<and> trim n = [])))))
   \<and> (validateForSubmission draft = None) =
       ((\<exists>item\<in>set (items draft). trim (description item) \<noteq> [])
        \<and> (payment_type draft = Cash
           \<or> (\<exists>c n. customer draft = Some c \<and> name c = Some n \<and> trim n \<noteq> [])))"
proof (intro conjI)
  show "(validateForSubmission draft = Some MissingLineItemDescription) =
     (\<forall>item\<in>set (items draft). trim (description item) = [])"
    by (simp add: validateForSubmission_def list_ex_described)
  show "(validateForSubmission draft = Some MissingCustomerName) =
       ((\<exists>item\<in>set (items draft). trim (description item) \<noteq> [])
        \<and> payment_type draft = Credit
        \<and> (customer draft = None
           \<or> (\<exists>c. customer draft = Some c
                \<and> (name c = None \<or> (\<exists>n. name c = Some n \<and> trim n = [])))))"
    by (auto simp: validateForSubmission_def list_ex_described customer_name_given_def
        split: option.splits)
  show "(validateForSubmission draft = None) =
       ((\<exists>item\<in>set (items draft). trim (description item) \<noteq> [])
        \<and> (payment_type draft = Cash
           \<or> (\<exists>c n. customer draft = Some c \<and> name c = Some n \<and> trim n \<noteq> [])))"
    by (cases "payment_type draft")
      (auto simp: validateForSubmission_def list_ex_described customer_name_given_def
        split: option.splits)
qed

theorem validateForSubmission_conditions_witness:
  "validateForSubmission empty_invoice = Some MissingLineItemDescription
   \<and> validateForSubmission
        (empty_invoice\<lparr>payment_type := Credit,
           items := [\<lparr>description = ''X'', quantity = Fin 1, rate = Fin 10, amount = Fin 10\<rparr>]\<rparr>)
       = Some MissingCustomerName"
proof -
  let ?d = "empty_invoice\<lparr>payment_type := Credit,
           items := [\<lparr>description = ''X'', quantity = Fin 1, rate = Fin 10, amount = Fin 10\<rparr>]\<rparr>"
  have blank: "\<forall>item\<in>set (items empty_invoice). trim (description item) = []"
    by (simp add: empty_invoice_def blank_item_def trim_def)
  have credit: "(\<exists>item\<in>set (items ?d). trim (description item) \<noteq> [])
        \<and> payment_type ?d = Credit
        \<and> (customer ?d = None
           \<or> (\<exists>c. customer ?d = Some c
                \<and> (name c = None \<or> (\<exists>n. name c = Some n \<and> trim n = []))))"
    by (simp add: empty_invoice_def trim_X)
  from validateForSubmission_conditions [of empty_invoice] blank
  have a: "validateForSubmission empty_invoice = Some MissingLineItemDescription" by blast
  from validateForSubmission_conditions [of ?d] credit
  have b: "validateForSubmission ?d = Some MissingCustomerName" by blast
  from a b show ?thesis by blast
qed

text \<open>
  C2. createInvoice validates first. When the validation fails the draft is kept and the
  condition is reported: the only effects are the loading flag and the alert of that
  condition (the missing description, or the missing customer name), whatever the
  persistence collaborator is, which is not called. When the validation passes the draft is
  posted. When the post fails the draft is kept and the failure is shown in an alert. When
  the post returns the persisted invoice the draft becomes the empty template: Cash, no
  customer, one blank row (empty description, quantity 1, rate 0, amount 0), and discount,
  rate, tax amount, subtotal and total all zero.
\<close>

theorem createInvoice_outcomes:
  "(validateForSubmission draft = Some MissingLineItemDescription \<longrightarrow>
      createInvoice post draft =
        (draft, [SetLoading True, Alert ''Please add at least one item with description'',
                 SetLoading False]))
   \<and> (validateForSubmission draft = Some MissingCustomerName \<longrightarrow>
        createInvoice post draft =
          (draft, [SetLoading True, Alert ''Please enter customer name for credit bills'',
                   SetLoading False]))
   \<and> (validateForSubmission draft = None \<longrightarrow>
        (\<exists>rest. snd (createInvoice post draft) = SetLoading True # Post draft # rest))
   \<and> (validateForSubmission draft = None \<and> post draft = PostFailed \<longrightarrow>
        fst (createInvoice post draft) = draft
        \<and> snd (createInvoice post draft) =
            [SetLoading True, Post draft, ConsoleError,
             Alert ''Failed to create invoice. Please try again.'', SetLoading False])
   \<and> (validateForSubmission draft = None \<and> post draft = PostResponse True \<longrightarrow>
        fst (createInvoice post draft) =
          \<lparr>payment_type = Cash, customer = None,
           items = [\<lparr>description = [], quantity = Fin 1, rate = Fin 0, amount = Fin 0\<rparr>],
           subtotal = Fin 0, discount = Fin 0, gst_rate = Fin 0, gst_amount = Fin 0,
           total_amount = Fin 0, invoice_notes = [], terms = [], due_date = None\<rparr>)"
proof (intro conjI impI)
  assume "validateForSubmission draft = Some MissingLineItemDescription"
  then show "createInvoice post draft =
        (draft, [SetLoading True, Alert ''Please add at least one item with description'',
                 SetLoading False])"
    by (simp add: createInvoice_def)
next
  assume "validateForSubmission draft = Some MissingCustomerName"
  then show "createInvoice post draft =
          (draft, [SetLoading True, Alert ''Please enter customer name for credit bills'',
                   SetLoading False])"
    by (simp add: createInvoice_def)
next
  assume "validateForSubmission draft = None"
  then show "\<exists>rest. snd (createInvoice post draft) = SetLoading True # Post draft # rest"
    by (simp add: createInvoice_def split: post_result.splits)
next
  assume failed: "validateForSubmission draft = None \<and> post draft = PostFailed"
  then show "fst (createInvoice post draft) = draft"
    by (simp add: createInvoice_def)
  from failed show "snd (createInvoice post draft) =
            [SetLoading True, Post draft, ConsoleError,
             Alert ''Failed to create invoice. Please try again.'', SetLoading False]"
    by (simp add: createInvoice_def)
next
  assume "validateForSubmission draft = None \<and> post draft = PostResponse True"
  then show "fst (createInvoice post draft) =
          \<lparr>payment_type = Cash, customer = None,
           items = [\<lparr>description = [], quantity = Fin 1, rate = Fin 0, amount = Fin 0\<rparr>],
           subtotal = Fin 0, discount = Fin 0, gst_rate = Fin 0, gst_amount = Fin 0,
           total_amount = Fin 0, invoice_notes = [], terms = [], due_date = None\<rparr>"
    by (simp add: createInvoice_def empty_invoice_def blank_item_def)
qed

theorem createInvoice_outcomes_witness:
  "createInvoice (\<lambda>x. PostResponse True) (empty_invoice\<lparr>invoice_notes := ''n''\<rparr>)
     = (empty_invoice\<lparr>invoice_notes := ''n''\<rparr>,
        [SetLoading True, Alert ''Please add at least one item with description'',
         SetLoading False])
   \<and> createInvoice (\<lambda>x. PostResponse True)
        (empty_invoice\<lparr>payment_type := Credit,
           items := [blank_item\<lparr>description := ''X''\<rparr>]\<rparr>)
     = (empty_invoice\<lparr>payment_type := Credit, items := [blank_item\<lparr>description := ''X''\<rparr>]\<rparr>,
        [SetLoading True, Alert ''Please enter customer name for credit bills'',
         SetLoading False])
   \<and> fst (createInvoice (\<lambda>x. PostFailed)
        (empty_invoice\<lparr>items := [blank_item\<lparr>description := ''X''\<rparr>], invoice_notes := ''n''\<rparr>))
     = empty_invoice\<lparr>items := [blank_item\<lparr>description := ''X''\<rparr>], invoice_notes := ''n''\<rparr>
   \<and> fst (createInvoice (\<lambda>x. PostResponse True)
        (empty_invoice\<lparr>items := [blank_item\<lparr>description := ''X''\<rparr>], invoice_notes := ''n''\<rparr>))
     = empty_invoice"
proof -
  let ?bad = "empty_invoice\<lparr>invoice_notes := ''n''\<rparr>"
  let ?credit = "empty_invoice\<lparr>payment_type := Credit,
           items := [blank_item\<lparr>description := ''X''\<rparr>]\<rparr>"
  let ?good = "empty_invoice\<lparr>items := [blank_item\<lparr>description := ''X''\<rparr>], invoice_notes := ''n''\<rparr>"
  have v0: "validateForSubmission ?bad = Some MissingLineItemDescription"
    by (simp add: validateForSubmission_def empty_invoice_def blank_item_def trim_def)
  have v1: "validateForSubmission ?credit = Some MissingCustomerName"
    by (simp add: validateForSubmission_def customer_name_given_def empty_invoice_def
        blank_item_def trim_X)
  have v2: "validateForSubmission ?good = None"
    by (simp add: validateForSubmission_def empty_invoice_def blank_item_def trim_X)
  have f: "validateForSubmission ?good = None \<and> (\<lambda>x. PostFailed) ?good = PostFailed"
    using v2 by simp
  have s: "validateForSubmission ?good = None \<and> (\<lambda>x. PostResponse True) ?good = PostResponse True"
    using v2 by simp
  from createInvoice_outcomes [of ?bad "\<lambda>x. PostResponse True"] v0
  have a: "createInvoice (\<lambda>x. PostResponse True) ?bad =
      (?bad, [SetLoading True, Alert ''Please add at least one item with description'',
              SetLoading False])" by blast
  from createInvoice_outcomes [of ?credit "\<lambda>x. PostResponse True"] v1
  have b: "createInvoice (\<lambda>x. PostResponse True) ?credit =
      (?credit, [SetLoading True, Alert ''Please enter customer name for credit bills'',
              SetLoading False])" by blast
  from createInvoice_outcomes [of ?good "\<lambda>x. PostFailed"] f
  have c: "fst (createInvoice (\<lambda>x. PostFailed) ?good) = ?good" by blast
  from createInvoice_outcomes [of ?good "\<lambda>x. PostResponse True"] s
  have "fst (createInvoice (\<lambda>x. PostResponse True) ?good) =
          \<lparr>payment_type = Cash, customer = None,
           items = [\<lparr>description = [], quantity = Fin 1, rate = Fin 0, amount = Fin 0\<rparr>],
           subtotal = Fin 0, discount = Fin 0, gst_rate = Fin 0, gst_amount = Fin 0,
           total_amount = Fin 0, invoice_notes = [], terms = [], due_date = None\<rparr>" by blast
  then have d: "fst (createInvoice (\<lambda>x. PostResponse True) ?good) = empty_invoice"
    by (simp add: empty_invoice_def blank_item_def)
  from a b c d show ?thesis by blast
qed

subsection \<open>Payment type and customer\<close>

text \<open>
  C6. Setting the payment type to Cash leaves no customer, whatever the customer was, and
  changes nothing else. Setting it to Credit changes the payment type only: the customer
  and every other field stay as they were.
\<close>

theorem handlePaymentTypeChange_customer:
  "customer (handlePaymentTypeChange Cash draft) = None
   \<and> handlePaymentTypeChange Cash draft = draft\<lparr>payment_type := Cash, customer := None\<rparr>
   \<and> customer (handlePaymentTypeChange Credit draft) = customer draft
   \<and> handlePaymentTypeChange Credit draft = draft\<lparr>payment_type := Credit\<rparr>"
  by (simp add: handlePaymentTypeChange_def)

lemma handleItemChange_customer:
  "handleItemChange i e draft = Inr draft' \<Longrightarrow>
     customer draft' = customer draft \<and> payment_type draft' = payment_type draft"
  by (auto simp: handleItemChange_def Let_def split: if_splits prod.splits)

lemma customer_payment_unchanged:
  "customer (addItem draft) = customer draft \<and> payment_type (addItem draft) = payment_type draft"
  "customer (removeItem i draft) = customer draft
     \<and> payment_type (removeItem i draft) = payment_type draft"
  "customer (handleDiscountChange v draft) = customer draft
     \<and> payment_type (handleDiscountChange v draft) = payment_type draft"
  "customer (handleGSTChange v draft) = customer draft
     \<and> payment_type (handleGSTChange v draft) = payment_type draft"
  "customer (setDueDate v draft) = customer draft
     \<and> payment_type (setDueDate v draft) = payment_type draft"
  "customer (setNotes v draft) = customer draft
     \<and> payment_type (setNotes v draft) = payment_type draft"
  "customer (setTerms v draft) = customer draft
     \<and> payment_type (setTerms v draft) = payment_type draft"
  by (simp_all add: addItem_def removeItem_def handleDiscountChange_def
      handleGSTChange_def setDueDate_def setNotes_def setTerms_def Let_def
      split: prod.splits)

lemma customer_only_credit_createInvoice:
  "customer_only_credit draft \<Longrightarrow> customer_only_credit (fst (createInvoice post draft))"
  by (simp add: createInvoice_def customer_only_credit_def empty_invoice_def
      split: option.splits validation_error.splits post_result.splits)

lemma customer_only_credit_apply_call:
  "customer_only_credit draft \<Longrightarrow> form_calls [c] draft \<Longrightarrow>
   customer_only_credit (apply_call c draft)"
proof (cases c)
  case (SetItemField i e)
  assume "customer_only_credit draft"
  then show ?thesis using SetItemField
    by (auto simp: customer_only_credit_def split: sum.splits dest: handleItemChange_customer)
next
  case (SetPaymentType ty)
  assume "customer_only_credit draft"
  then show ?thesis using SetPaymentType
    by (cases ty) (simp_all add: customer_only_credit_def handlePaymentTypeChange_def)
next
  case (SetCustomerField f v)
  assume "form_calls [c] draft"
  then show ?thesis using SetCustomerField
    by (simp add: customer_only_credit_def handleCustomerChange_def Let_def)
next
  case (Submit r)
  assume "customer_only_credit draft"
  then show ?thesis using Submit by (simp add: customer_only_credit_createInvoice)
qed (simp_all add: customer_only_credit_def customer_payment_unchanged)

lemma form_calls_Cons:
  "form_calls (c # cs) draft = (form_calls [c] draft \<and> form_calls cs (apply_call c draft))"
  by (cases c) simp_all

lemma customer_only_credit_run:
  "customer_only_credit draft \<Longrightarrow> form_calls cs draft \<Longrightarrow> customer_only_credit (run cs draft)"
proof (induction cs arbitrary: draft)
  case Nil
  then show ?case by simp
next
  case (Cons c cs)
  from Cons.prems(2) have one: "form_calls [c] draft" and rest: "form_calls cs (apply_call c draft)"
    by (simp_all add: form_calls_Cons [of c cs])
  from Cons.prems(1) one have "customer_only_credit (apply_call c draft)"
    by (rule customer_only_credit_apply_call)
  then show ?case using rest by (simp add: Cons.IH)
qed

lemma form_calls_take: "form_calls cs draft \<Longrightarrow> form_calls (take n cs) draft"
proof (induction cs arbitrary: draft n)
  case Nil
  then show ?case by simp
next
  case (Cons c cs)
  show ?case
  proof (cases n)
    case 0
    then show ?thesis by simp
  next
    case (Suc m)
    from Cons.prems have "form_calls [c] draft" and "form_calls cs (apply_call c draft)"
      by (simp_all add: form_calls_Cons [of c cs])
    then show ?thesis using Suc Cons.IH [of "apply_call c draft" m]
      by (simp add: form_calls_Cons [of c "take m cs"])
  qed
qed

text \<open>
  C5, as amended. handleCustomerChange writes a customer record whatever the payment type
  is, creating it when it is absent, and leaves the payment type alone. The invariant
  "a customer is present only when the payment type is Credit" holds after every call of
  a sequence from the initial draft in which each customer edit meets a Credit draft, as
  the form guarantees by showing the customer fields for Credit only.
\<close>

theorem customer_only_credit_form_calls:
  "(form_calls cs empty_invoice \<longrightarrow> customer_only_credit (run (take n cs) empty_invoice))
   \<and> customer (handleCustomerChange f v draft) \<noteq> None
   \<and> payment_type (handleCustomerChange f v draft) = payment_type draft
   \<and> (customer draft = None \<longrightarrow>
        customer (handleCustomerChange Name v draft) =
          Some \<lparr>name = Some v, mobile = None, address = None\<rparr>)"
proof (intro conjI impI)
  assume "form_calls cs empty_invoice"
  then have "form_calls (take n cs) empty_invoice" by (rule form_calls_take)
  moreover have "customer_only_credit empty_invoice"
    by (simp add: customer_only_credit_def empty_invoice_def)
  ultimately show "customer_only_credit (run (take n cs) empty_invoice)"
    by (simp add: customer_only_credit_run)
next
  show "customer (handleCustomerChange f v draft) \<noteq> None"
    by (simp add: handleCustomerChange_def Let_def)
  show "payment_type (handleCustomerChange f v draft) = payment_type draft"
    by (simp add: handleCustomerChange_def Let_def)
next
  assume "customer draft = None"
  then show "customer (handleCustomerChange Name v draft) =
          Some \<lparr>name = Some v, mobile = None, address = None\<rparr>"
    by (simp add: handleCustomerChange_def)
qed

theorem customer_only_credit_form_calls_witness:
  "form_calls [SetPaymentType Credit, SetCustomerField Name ''Bob'', SetPaymentType Cash]
     empty_invoice
   \<and> customer_only_credit
       (run [SetPaymentType Credit, SetCustomerField Name ''Bob'', SetPaymentType Cash]
          empty_invoice)
   \<and> customer (handleCustomerChange Name ''Bob'' empty_invoice)
       = Some \<lparr>name = Some ''Bob'', mobile = None, address = None\<rparr>"
proof -
  let ?cs = "[SetPaymentType Credit, SetCustomerField Name ''Bob'', SetPaymentType Cash]"
  have f: "form_calls ?cs empty_invoice"
    by (simp add: handlePaymentTypeChange_def)
  have n: "customer empty_invoice = None" by (simp add: empty_invoice_def)
  from customer_only_credit_form_calls [of ?cs 3] f
  have "customer_only_credit (run (take 3 ?cs) empty_invoice)" by blast
  then have a: "customer_only_credit (run ?cs empty_invoice)" by simp
  from customer_only_credit_form_calls [of ?cs 3 Name "''Bob''" empty_invoice] n
  have b: "customer (handleCustomerChange Name ''Bob'' empty_invoice)
       = Some \<lparr>name = Some ''Bob'', mobile = None, address = None\<rparr>" by blast
  from f a b show ?thesis by blast
qed

text \<open>
  A customer edit on the initial draft, whose payment type is Cash, breaks the invariant.
\<close>

theorem customer_only_credit_counterexample:
  "\<not> customer_only_credit (run [SetCustomerField Name ''Bob''] empty_invoice)"
  by (simp add: customer_only_credit_def handleCustomerChange_def empty_invoice_def)

subsection \<open>Lenient parsing of discount and rate\<close>




text \<open>
  C8. The discount input declares a minimum of 0, and the handler is to store a discount
  that is not negative. The text "-5" reaches the handler from that input all the same, and
  the handler stores the discount -5; the subtotal is unaffected.
\<close>

theorem handleDiscountChange_stores_negative:
  "discount (handleDiscountChange ''-5'' empty_invoice) = Fin (- 5)
   \<and> \<not> js_ge_zero (discount (handleDiscountChange ''-5'' empty_invoice))
   \<and> subtotal (handleDiscountChange ''-5'' empty_invoice) = subtotal empty_invoice"
  by (simp add: handleDiscountChange_def calculateTotals_eq amounts_sum_def Let_def
      parseFloat_minus5 empty_invoice_def blank_item_def)

subsection \<open>Editing a row that does not exist\<close>

text \<open>
  C9, as amended. handleItemChange throws a TypeError exactly when the index is not a
  position of the rows; the draft is then not written. With an index that is a position
  the call returns a draft with as many rows as before.
\<close>

theorem handleItemChange_error_iff:
  "(handleItemChange i e draft = Inl TypeError) = (i < 0 \<or> int (length (items draft)) \<le> i)
   \<and> (i < 0 \<or> int (length (items draft)) \<le> i \<longrightarrow>
        apply_call (SetItemField i e) draft = draft)
   \<and> (0 \<le> i \<and> i < int (length (items draft)) \<longrightarrow>
        (\<exists>draft'. handleItemChange i e draft = Inr draft'
           \<and> length (items draft') = length (items draft)))"
  by (auto simp: handleItemChange_def Let_def split: prod.splits)

theorem handleItemChange_error_iff_witness:
  "apply_call (SetItemField 5 (SetDescription ''x'')) empty_invoice = empty_invoice
   \<and> handleItemChange 5 (SetDescription ''x'') empty_invoice = Inl TypeError
   \<and> handleItemChange 0 (SetDescription ''x'') empty_invoice \<noteq> Inl TypeError"
proof -
  have out: "(5::int) < 0 \<or> int (length (items empty_invoice)) \<le> 5"
    by (simp add: empty_invoice_def)
  have ok: "(0::int) \<le> 0 \<and> 0 < int (length (items empty_invoice))"
    by (simp add: empty_invoice_def)
  from handleItemChange_error_iff [of 5 "SetDescription ''x''" empty_invoice] out
  have a: "apply_call (SetItemField 5 (SetDescription ''x'')) empty_invoice = empty_invoice"
    and b: "handleItemChange 5 (SetDescription ''x'') empty_invoice = Inl TypeError"
    by blast+
  from handleItemChange_error_iff [of 0 "SetDescription ''x''" empty_invoice] ok
  have "\<exists>draft'. handleItemChange 0 (SetDescription ''x'') empty_invoice = Inr draft'
           \<and> length (items draft') = length (items empty_invoice)" by blast
  then have c: "handleItemChange 0 (SetDescription ''x'') empty_invoice \<noteq> Inl TypeError"
    by auto
  from a b c show ?thesis by blast
qed

text \<open>
  Index 1 on the initial draft, which has one row, throws.
\<close>

theorem handleItemChange_out_of_range_counterexample:
  "handleItemChange 1 (SetDescription ''x'') empty_invoice = Inl TypeError"
  by (simp add: handleItemChange_def empty_invoice_def)

end
